theory Spec2Isabelle
  imports Complex_Main
begin

section \<open>Data model\<close>

text \<open>
  The repository's \<^verbatim>\<open>matrixgroup.py\<close> defines \<^verbatim>\<open>class MatrixGroup(Matrix)\<close>: an ordered
  list of ABCD elements that is itself an ABCD element. The base class \<^verbatim>\<open>Matrix\<close>, its
  subclasses \<^verbatim>\<open>Space\<close> and \<^verbatim>\<open>Lens\<close>, and the classes \<^verbatim>\<open>Ray\<close> and \<^verbatim>\<open>GaussianBeam\<close> live in
  modules that are imported by \<^verbatim>\<open>from .matrix import *\<close> and are not part of the sources at
  hand. Their fields are those the methods of \<^verbatim>\<open>MatrixGroup\<close> read and write; what they
  compute is taken from the specification and marked as such below.

  Python floats are modelled as \<^typ>\<open>real\<close>; \<^verbatim>\<open>float('+Inf')\<close> is a constructor of its own
  where the code uses it (\<^verbatim>\<open>upTo\<close>, \<^verbatim>\<open>apertureDiameter\<close>).
\<close>

record matrix =
  A :: real
  B :: real
  C :: real
  D :: real
  L :: real
  frontVertex :: "real option"
  backVertex :: "real option"
  frontIndex :: real
  backIndex :: real
  apertureDiameter :: "real option"  \<comment> \<open>\<open>None\<close> is the sentinel \<^verbatim>\<open>+Inf\<close>: no aperture\<close>
  label :: string

text \<open>
  A ray carries height, angle, axial position and the blocked flag. Python compares
  objects by reference unless the class says otherwise, so every ray and beam object
  carries its object identity (\<open>rid\<close>, \<open>bid\<close>); a new object gets a fresh one.
\<close>

record ray =
  rid :: nat
  y :: real
  theta :: real
  z :: real
  isBlocked :: bool

record beam =
  bid :: nat
  q :: complex
  bz :: real

datatype light = IsRay ray | IsBeam beam

fun oid :: "light \<Rightarrow> nat" where
  "oid (IsRay r) = rid r"
| "oid (IsBeam b) = bid b"

text \<open>
  An element of a group is a leaf \<^verbatim>\<open>Matrix\<close> (the flag says whether it is an instance of
  \<^verbatim>\<open>Space\<close>; the function is the leaf's own model of a partial transfer matrix, the
  method a subclass overrides) or a nested \<^verbatim>\<open>MatrixGroup\<close>. A group has the fields of
  its base class (\<open>agg\<close>), \<^verbatim>\<open>elements\<close>, \<^verbatim>\<open>iteration\<close> and the one-entry trace cache.
  The fields \<^verbatim>\<open>_lastRayToBeTraced\<close> and \<^verbatim>\<open>_lastRayTrace\<close> are assigned together in
  \<^verbatim>\<open>__init__\<close> (both \<^verbatim>\<open>None\<close>) and in \<^verbatim>\<open>trace\<close> (both set), and nowhere else: they are
  one optional pair here.

  Values stand for objects: two occurrences of an element in a list are two objects.
\<close>

datatype element =
    Leaf (isSpace: bool) (leafMatrix: matrix) (leafPartial: "matrix \<Rightarrow> real \<Rightarrow> matrix")
  | Sub (subGroup: group)
and group =
    MatrixGroup (agg: matrix) (elements: "element list") (iteration: nat)
      (traceCache: "(light \<times> light list) option")

text \<open>What a Python caller can pass where an element, a ray or an iterable is expected.\<close>

datatype pyvalue =
    PElem element
  | PLight light
  | PIter "pyvalue list"
  | PNone
  | POther

datatype error =
    TypeError
  | ValueError
  | IndexOutOfBound int int  \<comment> \<open>\<^verbatim>\<open>IndexError\<close>: the index after normalisation, the maximum named\<close>
  | IndexStartStopEqual      \<comment> \<open>\<^verbatim>\<open>IndexError\<close> of \<^verbatim>\<open>replaceChunk\<close>\<close>

fun isIndexError :: "error \<Rightarrow> bool" where
  "isIndexError (IndexOutOfBound i m) = True"
| "isIndexError IndexStartStopEqual = True"
| "isIndexError _ = False"

datatype warning = FixingMismatchedIndices | PhysicalLengthMismatch

text \<open>
  The outcome of a method call on a group: the exception that ended it, if any, the
  warnings it emitted, and the receiver as the call left it (also when it raised).
\<close>

datatype outcome = Outcome (raised: "error option") (warned: "warning list") (after: group)

definition andThen :: "outcome \<Rightarrow> (group \<Rightarrow> outcome) \<Rightarrow> outcome" where
  "andThen r f =
     (case raised r of
        Some e \<Rightarrow> r
      | None \<Rightarrow> (let r' = f (after r) in Outcome (raised r') (warned r @ warned r') (after r')))"

datatype upto = Finite real | PlusInf

fun le_upto :: "real \<Rightarrow> upto \<Rightarrow> bool" where
  "le_upto l (Finite d) = (l \<le> d)"
| "le_upto l PlusInf = True"

fun minus_upto :: "upto \<Rightarrow> real \<Rightarrow> upto" where
  "minus_upto (Finite d) l = Finite (d - l)"
| "minus_upto PlusInf l = PlusInf"

section \<open>The base class, from the specification\<close>

text \<open>
  Modelled from the spec: the constructor \<^verbatim>\<open>Matrix(A, B, C, D)\<close> of the absent module
  \<^verbatim>\<open>matrix.py\<close>. Length 0, no vertices, indices 1, no aperture, empty label.
\<close>

definition Matrix :: "real \<Rightarrow> real \<Rightarrow> real \<Rightarrow> real \<Rightarrow> matrix" where
  "Matrix a b c d = \<lparr>A = a, B = b, C = c, D = d, L = 0, frontVertex = None, backVertex = None,
     frontIndex = 1, backIndex = 1, apertureDiameter = None, label = []\<rparr>"

text \<open>
  Modelled from the spec: \<^verbatim>\<open>Matrix.__mul__\<close> on two matrices (absent module
  \<^verbatim>\<open>matrix.py\<close>). Section 4.1: the entries are the 2x2 matrix product, the length is the
  sum of the lengths, the front index and vertex are those of the right operand (which
  occurs first), the back index and vertex those of the left operand.
\<close>

definition mul_matrix :: "matrix \<Rightarrow> matrix \<Rightarrow> matrix" where
  "mul_matrix l r = \<lparr>A = A l * A r + B l * C r, B = A l * B r + B l * D r,
     C = C l * A r + D l * C r, D = C l * B r + D l * D r, L = L l + L r,
     frontVertex = frontVertex r, backVertex = backVertex l,
     frontIndex = frontIndex r, backIndex = backIndex l,
     apertureDiameter = None, label = []\<rparr>"

text \<open>
  Modelled from the spec: \<^verbatim>\<open>Space(d)\<close> (absent module \<^verbatim>\<open>matrix.py\<close>), free-space propagation
  over the distance \<open>d\<close>: the translation matrix with physical length \<open>d\<close>. Its partial
  transfer matrix is, in the words of the docstring of \<^verbatim>\<open>MatrixGroup.transferMatrix\<close>,
  \<^verbatim>\<open>Space(d=upTo)\<close>, in the same medium.
\<close>

definition Space :: "real \<Rightarrow> element" where
  "Space d = Leaf True ((Matrix 1 d 0 1)\<lparr>L := d\<rparr>) (\<lambda>m upTo. m\<lparr>B := upTo, L := upTo\<rparr>)"

text \<open>
  Modelled from the spec: \<^verbatim>\<open>Lens(f)\<close> (absent module \<^verbatim>\<open>matrix.py\<close>), a thin lens of focal
  length \<open>f \<noteq> 0\<close>: zero physical length, both vertices at its own plane. An element of
  length 0 has no partial state.
\<close>

definition Lens :: "real \<Rightarrow> element" where
  "Lens f = Leaf False ((Matrix 1 0 (- 1 / f) 1)\<lparr>frontVertex := Some 0, backVertex := Some 0\<rparr>)
              (\<lambda>m upTo. m)"

text \<open>The view of an element as an instance of the base class: its own ABCD fields.\<close>

fun asMatrix :: "element \<Rightarrow> matrix" where
  "asMatrix (Leaf sp m p) = m"
| "asMatrix (Sub g) = agg g"

fun isSpaceInstance :: "element \<Rightarrow> bool" where
  "isSpaceInstance (Leaf sp m p) = sp"
| "isSpaceInstance (Sub g) = False"

fun setIndices :: "element \<Rightarrow> real \<Rightarrow> element" where
  "setIndices (Leaf sp m p) n = Leaf sp (m\<lparr>frontIndex := n, backIndex := n\<rparr>) p"
| "setIndices (Sub (MatrixGroup ag es it ca)) n =
     Sub (MatrixGroup (ag\<lparr>frontIndex := n, backIndex := n\<rparr>) es it ca)"

section \<open>\<^verbatim>\<open>MatrixGroup.transferMatrix\<close>\<close>

text \<open>
  \<^verbatim>\<open>
  transferMatrix = Matrix(A=1, B=0, C=0, D=1)
  distance = upTo
  for element in self.elements:
      if element.L <= distance:
          transferMatrix = element * transferMatrix
          distance -= element.L
      else:
          transferMatrix = element.transferMatrix(upTo=distance) * transferMatrix
          break
  return transferMatrix
  \<close>
  The loop is \<open>transferLoop\<close>. The call \<^verbatim>\<open>element.transferMatrix\<close> is the method above for
  a nested group. For a leaf it is the method of the absent base class, modelled from the
  spec (section 4.1): the full matrix when the distance reaches the length, the leaf's
  own subdivision otherwise.
\<close>

fun elementTransferMatrix :: "element \<Rightarrow> upto \<Rightarrow> matrix"
and transferLoop :: "element list \<Rightarrow> upto \<Rightarrow> matrix \<Rightarrow> matrix" where
  "elementTransferMatrix (Leaf sp m p) upTo =
     (if le_upto (L m) upTo then m else (case upTo of Finite d \<Rightarrow> p m d | PlusInf \<Rightarrow> m))"
| "elementTransferMatrix (Sub (MatrixGroup ag es it ca)) upTo =
     transferLoop es upTo (Matrix 1 0 0 1)"
| "transferLoop [] distance transferMatrix = transferMatrix"
| "transferLoop (element # rest) distance transferMatrix =
     (if le_upto (L (asMatrix element)) distance
      then transferLoop rest (minus_upto distance (L (asMatrix element)))
             (mul_matrix (asMatrix element) transferMatrix)
      else mul_matrix (elementTransferMatrix element distance) transferMatrix)"

definition transferMatrix :: "group \<Rightarrow> upto \<Rightarrow> matrix" where
  "transferMatrix self upTo = transferLoop (elements self) upTo (Matrix 1 0 0 1)"

section \<open>\<^verbatim>\<open>MatrixGroup.append\<close> and the constructor\<close>

definition setElements :: "group \<Rightarrow> element list \<Rightarrow> group" where
  "setElements self es = MatrixGroup (agg self) es (iteration self) (traceCache self)"

definition setIteration :: "group \<Rightarrow> nat \<Rightarrow> group" where
  "setIteration self n = MatrixGroup (agg self) (elements self) n (traceCache self)"

definition setTraceCache :: "group \<Rightarrow> (light \<times> light list) option \<Rightarrow> group" where
  "setTraceCache self ca = MatrixGroup (agg self) (elements self) (iteration self) ca"

text \<open>
  Lines 84 to 92 of \<^verbatim>\<open>matrixgroup.py\<close>: the element is added, the transfer matrix of the
  whole list is computed afresh, and seven fields of the receiver are overwritten.
\<close>

definition recompute :: "group \<Rightarrow> group" where
  "recompute self =
     (let transferMatrix = transferMatrix self PlusInf
      in MatrixGroup
           ((agg self)\<lparr>A := A transferMatrix, B := B transferMatrix, C := C transferMatrix,
              D := D transferMatrix, L := L transferMatrix,
              frontVertex := frontVertex transferMatrix,
              backVertex := backVertex transferMatrix\<rparr>)
           (elements self) (iteration self) (traceCache self))"

definition addElement :: "group \<Rightarrow> element \<Rightarrow> group" where
  "addElement self matrix = recompute (setElements self (elements self @ [matrix]))"

text \<open>
  \<^verbatim>\<open>
  if not isinstance(matrix, Matrix): raise TypeError(...)
  if len(self.elements) != 0:
      lastElement = self.elements[-1]
      if lastElement.backIndex != matrix.frontIndex:
          if isinstance(matrix, Space):
              warnings.warn(msg, UserWarning)
              matrix.frontIndex = lastElement.backIndex
              matrix.backIndex = matrix.frontIndex
          else:
              raise ValueError(msg)
  self.elements.append(matrix)
  ...
  \<close>
\<close>

fun append :: "group \<Rightarrow> pyvalue \<Rightarrow> outcome" where
  "append self (PElem matrix) =
     (if elements self \<noteq> [] \<and>
         backIndex (asMatrix (last (elements self))) \<noteq> frontIndex (asMatrix matrix)
      then (if isSpaceInstance matrix
            then Outcome None [FixingMismatchedIndices]
                   (addElement self
                      (setIndices matrix (backIndex (asMatrix (last (elements self))))))
            else Outcome (Some ValueError) [] self)
      else Outcome None [] (addElement self matrix))"
| "append self v = Outcome (Some TypeError) [] self"

text \<open>The loop \<^verbatim>\<open>for element in xs: self.append(element)\<close>; an exception ends it.\<close>

fun appendAll :: "group \<Rightarrow> pyvalue list \<Rightarrow> outcome" where
  "appendAll self [] = Outcome None [] self"
| "appendAll self (v # vs) = andThen (append self v) (\<lambda>self'. appendAll self' vs)"

text \<open>
  \<^verbatim>\<open>MatrixGroup(elements)\<close>: the base class constructor gives the identity, the list is
  empty, and every item of the iterable is appended. A \<^verbatim>\<open>MatrixGroup\<close> is iterable (it
  defines \<^verbatim>\<open>__iter__\<close>) and yields its elements in order; a leaf matrix, a ray and
  \<open>POther\<close> are not iterable.
\<close>

definition emptyGroup :: group where
  "emptyGroup = MatrixGroup (Matrix 1 0 0 1) [] 0 None"

fun newMatrixGroup :: "pyvalue \<Rightarrow> outcome" where
  "newMatrixGroup PNone = Outcome None [] emptyGroup"
| "newMatrixGroup (PIter vs) = appendAll emptyGroup vs"
| "newMatrixGroup (PElem (Sub g)) = appendAll emptyGroup (map PElem (elements g))"
| "newMatrixGroup v = Outcome (Some TypeError) [] emptyGroup"

section \<open>Structural edits\<close>

text \<open>
  All four edits normalise a negative index by adding the length, check the bounds, copy
  the list, empty \<^verbatim>\<open>self.elements\<close> and append the elements of the new arrangement one by
  one. The loops \<^verbatim>\<open>for i in range(maxIndex)\<close> run over the copy with the position \<open>i\<close>.
\<close>

definition normIndex :: "int \<Rightarrow> int \<Rightarrow> int" where
  "normIndex index maxIndex = (if index < 0 then index + maxIndex else index)"

fun removeLoop :: "int \<Rightarrow> bool \<Rightarrow> int \<Rightarrow> element list \<Rightarrow> group \<Rightarrow> outcome" where
  "removeLoop index pad i [] self = Outcome None [] self"
| "removeLoop index pad i (element # rest) self =
     (if i = index
      then (if L (asMatrix element) > 0 \<and> pad
            then andThen (append self (PElem (Space (L (asMatrix element)))))
                   (\<lambda>self'. removeLoop index pad (i + 1) rest self')
            else removeLoop index pad (i + 1) rest self)
      else andThen (append self (PElem element))
             (\<lambda>self'. removeLoop index pad (i + 1) rest self'))"

definition removeElement :: "group \<Rightarrow> int \<Rightarrow> bool \<Rightarrow> outcome" where
  "removeElement self index0 pad =
     (let maxIndex = int (length (elements self));
          index = normIndex index0 maxIndex
      in if index \<ge> maxIndex \<or> index < 0
         then Outcome (Some (IndexOutOfBound index (maxIndex - 1))) [] self
         else removeLoop index pad 0 (elements self) (setElements self []))"

text \<open>
  \<^verbatim>\<open>
  if not isinstance(element, collections.Iterable):
      element = MatrixGroup([element])
  else:
      element = MatrixGroup(element)
  \<close>
  The argument becomes a group of its own before the receiver is looked at.
\<close>

fun isIterable :: "pyvalue \<Rightarrow> bool" where
  "isIterable (PIter vs) = True"
| "isIterable (PElem (Sub g)) = True"
| "isIterable v = False"

definition groupOf :: "pyvalue \<Rightarrow> outcome" where
  "groupOf v = (if \<not> isIterable v then newMatrixGroup (PIter [v]) else newMatrixGroup v)"

text \<open>The loop \<^verbatim>\<open>for newElement in element: self.append(newElement)\<close> over a group.\<close>

definition appendEach :: "group \<Rightarrow> group \<Rightarrow> outcome" where
  "appendEach self newGroup = appendAll self (map PElem (elements newGroup))"

fun insertLoop :: "int \<Rightarrow> group \<Rightarrow> int \<Rightarrow> element list \<Rightarrow> group \<Rightarrow> outcome" where
  "insertLoop index element i [] self = Outcome None [] self"
| "insertLoop index element i (previousElement # rest) self =
     (if i = index
      then andThen (appendEach self element)
             (\<lambda>self'. andThen (append self' (PElem previousElement))
                (\<lambda>self''. insertLoop index element (i + 1) rest self''))
      else andThen (append self (PElem previousElement))
             (\<lambda>self'. insertLoop index element (i + 1) rest self'))"

definition insertElement :: "group \<Rightarrow> int \<Rightarrow> pyvalue \<Rightarrow> outcome" where
  "insertElement self index0 arg =
     (let made = groupOf arg
      in case raised made of
           Some e \<Rightarrow> Outcome (Some e) (warned made) self
         | None \<Rightarrow>
             (let element = after made;
                  maxIndex = int (length (elements self));
                  index = normIndex index0 maxIndex
              in if index > maxIndex \<or> index < 0
                 then Outcome (Some (IndexOutOfBound index maxIndex)) (warned made) self
                 else andThen (Outcome None (warned made) self)
                        (\<lambda>self'. if index = maxIndex
                           then appendEach self' element
                           else insertLoop index element 0 (elements self')
                                  (setElements self' []))))"

definition warnIf :: "bool \<Rightarrow> warning \<Rightarrow> group \<Rightarrow> outcome" where
  "warnIf c w self = Outcome None (if c then [w] else []) self"

fun replaceSingleLoop :: "int \<Rightarrow> group \<Rightarrow> int \<Rightarrow> element list \<Rightarrow> group \<Rightarrow> outcome" where
  "replaceSingleLoop index newElement i [] self = Outcome None [] self"
| "replaceSingleLoop index newElement i (toReplace # rest) self =
     (if i = index
      then andThen (warnIf (L (asMatrix toReplace) \<noteq> L (agg newElement))
                      PhysicalLengthMismatch self)
             (\<lambda>self'. andThen (appendEach self' newElement)
                (\<lambda>self''. replaceSingleLoop index newElement (i + 1) rest self''))
      else andThen (append self (PElem toReplace))
             (\<lambda>self'. replaceSingleLoop index newElement (i + 1) rest self'))"

definition replaceSingle :: "group \<Rightarrow> int \<Rightarrow> pyvalue \<Rightarrow> outcome" where
  "replaceSingle self index0 arg =
     (let made = groupOf arg
      in case raised made of
           Some e \<Rightarrow> Outcome (Some e) (warned made) self
         | None \<Rightarrow>
             (let newElement = after made;
                  maxIndex = int (length (elements self));
                  index = normIndex index0 maxIndex
              in if index \<ge> maxIndex \<or> index < 0
                 then Outcome (Some (IndexOutOfBound index (maxIndex - 1))) (warned made) self
                 else andThen (Outcome None (warned made) self)
                        (\<lambda>self'. replaceSingleLoop index newElement 0 (elements self')
                                  (setElements self' []))))"

text \<open>
  \<^verbatim>\<open>self[startIndex:stopIndex + 1]\<close> is \<^verbatim>\<open>MatrixGroup(self.elements[startIndex:stopIndex + 1])\<close>,
  a new group built by appending the elements of the slice.
\<close>

definition getSlice :: "group \<Rightarrow> int \<Rightarrow> int \<Rightarrow> outcome" where
  "getSlice self start stop =
     newMatrixGroup (PIter (map PElem (take (nat (stop - start)) (drop (nat start) (elements self)))))"

fun replaceChunkLoop :: "int \<Rightarrow> int \<Rightarrow> group \<Rightarrow> int \<Rightarrow> element list \<Rightarrow> group \<Rightarrow> outcome" where
  "replaceChunkLoop startIndex stopIndex newChunk i [] self = Outcome None [] self"
| "replaceChunkLoop startIndex stopIndex newChunk i (element # rest) self =
     (if i < startIndex \<or> i > stopIndex
      then andThen (append self (PElem element))
             (\<lambda>self'. replaceChunkLoop startIndex stopIndex newChunk (i + 1) rest self')
      else if i = startIndex
      then andThen (appendEach self newChunk)
             (\<lambda>self'. replaceChunkLoop startIndex stopIndex newChunk (i + 1) rest self')
      else replaceChunkLoop startIndex stopIndex newChunk (i + 1) rest self)"

definition replaceChunk :: "group \<Rightarrow> int \<Rightarrow> int \<Rightarrow> pyvalue \<Rightarrow> outcome" where
  "replaceChunk self startIndex0 stopIndex0 arg =
     (let made = groupOf arg
      in case raised made of
           Some e \<Rightarrow> Outcome (Some e) (warned made) self
         | None \<Rightarrow>
             (let newChunk = after made;
                  maxIndex = int (length (elements self));
                  startIndex1 = normIndex startIndex0 maxIndex;
                  stopIndex1 = normIndex stopIndex0 maxIndex
              in if startIndex1 \<ge> maxIndex \<or> startIndex1 < 0
                 then Outcome (Some (IndexOutOfBound startIndex1 (maxIndex - 1))) (warned made) self
                 else if stopIndex1 \<ge> maxIndex \<or> stopIndex1 < 0
                 then Outcome (Some (IndexOutOfBound stopIndex1 (maxIndex - 1))) (warned made) self
                 else if startIndex1 = stopIndex1
                 then Outcome (Some IndexStartStopEqual) (warned made) self
                 else
                   (let startIndex = min startIndex1 stopIndex1;
                        stopIndex = max startIndex1 stopIndex1;
                        sliced = getSlice self startIndex (stopIndex + 1)
                    in case raised sliced of
                         Some e \<Rightarrow> Outcome (Some e) (warned made @ warned sliced) self
                       | None \<Rightarrow>
                           andThen (Outcome None (warned made @ warned sliced) self)
                             (\<lambda>self'. andThen
                                (warnIf (L (agg (after sliced)) \<noteq> L (agg newChunk))
                                   PhysicalLengthMismatch self')
                                (\<lambda>self''. replaceChunkLoop startIndex stopIndex newChunk 0
                                   (elements self'') (setElements self'' []))))))"

section \<open>Iteration\<close>

text \<open>
  \<^verbatim>\<open>
  def __iter__(self):
      self.iteration = 0
      return self
  def __next__(self):
      if self.elements is None: raise StopIteration
      if self.iteration < len(self.elements):
          element = self.elements[self.iteration]
          self.iteration += 1
          return element
      raise StopIteration
  \<close>
  \<^verbatim>\<open>__iter__\<close> returns the receiver: the iterator is the group, and its position is the
  group's field. \<open>None\<close> as the result of \<open>nextElement\<close> is \<^verbatim>\<open>StopIteration\<close>. No method
  assigns \<^verbatim>\<open>None\<close> to \<^verbatim>\<open>self.elements\<close>, which is a list here, so the first guard has no
  branch.
\<close>

definition iter :: "group \<Rightarrow> group" where
  "iter self = setIteration self 0"

definition nextElement :: "group \<Rightarrow> element option \<times> group" where
  "nextElement self =
     (if iteration self < length (elements self)
      then (Some (elements self ! iteration self), setIteration self (iteration self + 1))
      else (None, self))"

text \<open>
  A \<^verbatim>\<open>for\<close> loop over a group calls \<^verbatim>\<open>__iter__\<close> once and \<^verbatim>\<open>__next__\<close> until it raises
  \<^verbatim>\<open>StopIteration\<close>. \<open>drainFrom\<close> is the loop \<^verbatim>\<open>for b in self: pass\<close> after the call of
  \<^verbatim>\<open>__iter__\<close>: it returns the elements visited. \<open>outerLoop\<close> is the outer loop of
  \<^verbatim>\<open>for a in self: (for b in self: pass)\<close>: it returns, for each element the outer loop
  visits, the elements the inner loop visited.
\<close>

function drainFrom :: "group \<Rightarrow> element list \<times> group" where
  "drainFrom self =
     (case nextElement self of
        (None, self1) \<Rightarrow> ([], self1)
      | (Some b, self1) \<Rightarrow> (case drainFrom self1 of (bs, self2) \<Rightarrow> (b # bs, self2)))"
  by pat_completeness auto
termination
  by (relation "measure (\<lambda>self. length (elements self) - iteration self)")
     (auto simp: nextElement_def setIteration_def split: if_splits)

definition forEach :: "group \<Rightarrow> element list \<times> group" where
  "forEach self = drainFrom (iter self)"

declare drainFrom.simps [simp del]

function outerLoop :: "group \<Rightarrow> (element \<times> element list) list \<times> group" where
  "outerLoop self =
     (case nextElement self of
        (None, self1) \<Rightarrow> ([], self1)
      | (Some a, self1) \<Rightarrow>
          (case forEach self1 of
             (inner, self2) \<Rightarrow>
               (case outerLoop self2 of (rest, self3) \<Rightarrow> ((a, inner) # rest, self3))))"
  by pat_completeness auto
termination
proof (relation "measure (\<lambda>self. length (elements self) - iteration self)")
  show "wf (measure (\<lambda>self. length (elements self) - iteration self))"
    by simp
next
  fix self x1 x2 a inner self2
  assume n: "(x1, x2) = nextElement self" and x1: "x1 = Some a"
    and f: "(inner, self2) = forEach x2"
  have step: "drainFrom g =
      (case drainFrom (setIteration g (iteration g + 1)) of
         (bs, g2) \<Rightarrow> (elements g ! iteration g # bs, g2))"
    if "iteration g < length (elements g)" for g
    using that by (subst drainFrom.simps) (simp add: nextElement_def)
  have stop: "drainFrom g = ([], g)" if "\<not> iteration g < length (elements g)" for g
    using that by (subst drainFrom.simps) (simp add: nextElement_def)
  have drained: "elements (snd (drainFrom g)) = elements g \<and>
      (iteration g \<le> length (elements g) \<longrightarrow>
         iteration (snd (drainFrom g)) = length (elements g))" for g
  proof (induction g rule: drainFrom.induct)
    case (1 g)
    show ?case
    proof (cases "iteration g < length (elements g)")
      case True
      then have "nextElement g =
          (Some (elements g ! iteration g), setIteration g (iteration g + 1))"
        by (simp add: nextElement_def)
      then have "elements (snd (drainFrom (setIteration g (iteration g + 1)))) =
          elements (setIteration g (iteration g + 1)) \<and>
          (iteration (setIteration g (iteration g + 1))
             \<le> length (elements (setIteration g (iteration g + 1))) \<longrightarrow>
           iteration (snd (drainFrom (setIteration g (iteration g + 1)))) =
             length (elements (setIteration g (iteration g + 1))))"
        using "1.IH" by simp
      then show ?thesis
        using True by (auto simp add: step setIteration_def split: prod.splits)
    next
      case False
      then show ?thesis
        by (simp add: stop)
    qed
  qed
  from n x1 have lt: "iteration self < length (elements self)"
    by (auto simp: nextElement_def split: if_splits)
  have s: "self2 = snd (drainFrom (iter x2))"
    using f by (simp add: forEach_def split: prod.splits) (metis snd_conv)
  have "elements self2 = elements x2"
    using drained [of "iter x2"] by (simp add: s iter_def setIteration_def)
  moreover have "elements x2 = elements self"
    using n lt by (simp add: nextElement_def setIteration_def)
  moreover have "iteration self2 = length (elements (iter x2))"
    using drained [of "iter x2"] by (simp add: s iter_def setIteration_def)
  ultimately show "(self2, self) \<in> measure (\<lambda>self. length (elements self) - iteration self)"
    using lt by (simp add: iter_def setIteration_def)
qed

declare outerLoop.simps [simp del]

definition nestedFor :: "group \<Rightarrow> (element \<times> element list) list \<times> group" where
  "nestedFor self = outerLoop (iter self)"

section \<open>\<^verbatim>\<open>MatrixGroup.trace\<close>\<close>

text \<open>
  Modelled from the spec: \<^verbatim>\<open>Matrix.trace\<close> of a leaf (absent module \<^verbatim>\<open>matrix.py\<close>).
  Section 4.1: the outgoing height and angle are the 2x2 product; the outgoing height is
  tested against half of a finite \<^verbatim>\<open>apertureDiameter\<close>; a ray that exceeds it is flagged
  blocked, and a blocked ray stays blocked (section 4.2). A Gaussian beam is propagated
  by the same operator on its complex parameter, with no blocking test. Each step makes
  a new object (section 3); \<open>fresh\<close> is the identity it gets.
\<close>

definition exceedsAperture :: "matrix \<Rightarrow> real \<Rightarrow> bool" where
  "exceedsAperture m height =
     (case apertureDiameter m of None \<Rightarrow> False | Some diameter \<Rightarrow> \<bar>height\<bar> > diameter / 2)"

fun propagate :: "matrix \<Rightarrow> light \<Rightarrow> nat \<Rightarrow> light" where
  "propagate m (IsRay r) fresh =
     IsRay \<lparr>rid = fresh, y = A m * y r + B m * theta r, theta = C m * y r + D m * theta r,
            z = z r + L m,
            isBlocked = (isBlocked r \<or> exceedsAperture m (A m * y r + B m * theta r))\<rparr>"
| "propagate m (IsBeam b) fresh =
     IsBeam \<lparr>bid = fresh,
             q = (of_real (A m) * q b + of_real (B m)) / (of_real (C m) * q b + of_real (D m)),
             bz = bz b + L m\<rparr>"

text \<open>
  Modelled from the spec: the comparison \<^verbatim>\<open>ray != self._lastRayToBeTraced\<close> is that of the
  absent class \<^verbatim>\<open>Ray\<close>. Section 3: the cache is keyed by reference identity of the last
  traced ray. With \<^verbatim>\<open>None\<close> in the cache the comparison is true.
\<close>

fun differsFromLast :: "light \<Rightarrow> (light \<times> light list) option \<Rightarrow> bool" where
  "differsFromLast ray None = True"
| "differsFromLast ray (Some (lastRayToBeTraced, lastRayTrace)) =
     (oid ray \<noteq> oid lastRayToBeTraced)"

text \<open>
  \<^verbatim>\<open>
  ray = inputRay
  if ray != self._lastRayToBeTraced:
      rayTrace = [ray]
      for element in self.elements:
          rayTraceInElement = element.trace(ray)
          rayTrace.extend(rayTraceInElement)
          ray = rayTraceInElement[-1]
      self._lastRayToBeTraced = inputRay
      self._lastRayTrace = rayTrace
  else:
      rayTrace = self._lastRayTrace
  return rayTrace
  \<close>
  \<open>traceElement\<close> is \<^verbatim>\<open>element.trace(ray)\<close>: the method above for a nested group (whose
  cache it fills), the base class method for a leaf. \<open>traceLoop\<close> is the loop; it
  returns what the loop added to \<^verbatim>\<open>rayTrace\<close>, the elements as the calls left them and the
  next fresh identity.
\<close>

fun traceElement :: "element \<Rightarrow> light \<Rightarrow> nat \<Rightarrow> light list \<times> element \<times> nat"
and traceLoop :: "element list \<Rightarrow> light \<Rightarrow> nat \<Rightarrow> light list \<times> element list \<times> nat" where
  "traceElement (Leaf sp m p) ray fresh = ([propagate m ray fresh], Leaf sp m p, Suc fresh)"
| "traceElement (Sub (MatrixGroup ag es it ca)) ray fresh =
     (if differsFromLast ray ca
      then (case traceLoop es ray fresh of
              (added, es1, fresh1) \<Rightarrow>
                (ray # added, Sub (MatrixGroup ag es1 it (Some (ray, ray # added))), fresh1))
      else (case ca of
              Some (lastRayToBeTraced, lastRayTrace) \<Rightarrow>
                (lastRayTrace, Sub (MatrixGroup ag es it ca), fresh)
            | None \<Rightarrow> ([], Sub (MatrixGroup ag es it ca), fresh)))"
| "traceLoop [] ray fresh = ([], [], fresh)"
| "traceLoop (element # rest) ray fresh =
     (case traceElement element ray fresh of
        (rayTraceInElement, element1, fresh1) \<Rightarrow>
          (case traceLoop rest (last rayTraceInElement) fresh1 of
             (added, rest1, fresh2) \<Rightarrow>
               (rayTraceInElement @ added, element1 # rest1, fresh2)))"

text \<open>
  The method on the receiver, after the type check
  \<^verbatim>\<open>if not isinstance(inputRay, (Ray, GaussianBeam)): raise TypeError(...)\<close>.
\<close>

fun trace :: "group \<Rightarrow> pyvalue \<Rightarrow> nat \<Rightarrow> (error + light list) \<times> group \<times> nat" where
  "trace self (PLight inputRay) fresh =
     (case traceElement (Sub self) inputRay fresh of
        (rayTrace, self1, fresh1) \<Rightarrow> (Inr rayTrace, subGroup self1, fresh1))"
| "trace self v fresh = (Inl TypeError, self, fresh)"

section \<open>Notions used in the statements\<close>

text \<open>
  The product of a list of elements in the order of the walk (each element multiplied
  from the left onto what came before), the sum of their lengths, and the four entries
  of a matrix.
\<close>

definition composeAll :: "matrix \<Rightarrow> element list \<Rightarrow> matrix" where
  "composeAll start es = foldl (\<lambda>acc element. mul_matrix (asMatrix element) acc) start es"

definition lengthOf :: "element list \<Rightarrow> real" where
  "lengthOf es = sum_list (map (\<lambda>element. L (asMatrix element)) es)"

definition abcd :: "matrix \<Rightarrow> real \<times> real \<times> real \<times> real" where
  "abcd m = (A m, B m, C m, D m)"

text \<open>The group \<^verbatim>\<open>MatrixGroup([Space(d1), Lens(f), Space(d2)])\<close>.\<close>

definition spacerLensSpacer :: "real \<Rightarrow> real \<Rightarrow> real \<Rightarrow> outcome" where
  "spacerLensSpacer d1 f d2 =
     newMatrixGroup (PIter [PElem (Space d1), PElem (Lens f), PElem (Space d2)])"

text \<open>
  The fields of the aggregate that \<^verbatim>\<open>append\<close> copies from \<^verbatim>\<open>self.transferMatrix()\<close>, and
  the statement that they are those of the transfer matrix of the current list.
  \<open>totalLength\<close> is \<^verbatim>\<open>self.transferMatrix().L\<close>.
\<close>

definition aggregateFields ::
  "matrix \<Rightarrow> real \<times> real \<times> real \<times> real \<times> real \<times> real option \<times> real option" where
  "aggregateFields m = (A m, B m, C m, D m, L m, frontVertex m, backVertex m)"

definition aggregateCurrent :: "group \<Rightarrow> bool" where
  "aggregateCurrent self =
     (aggregateFields (agg self) = aggregateFields (transferMatrix self PlusInf))"

definition totalLength :: "group \<Rightarrow> real" where
  "totalLength self = L (transferMatrix self PlusInf)"

text \<open>
  A list of elements is chained when the back index of each element is the front index
  of the next one: \<^verbatim>\<open>append\<close> takes such elements as they are.
\<close>

fun chained :: "element list \<Rightarrow> bool" where
  "chained [] = True"
| "chained [a] = True"
| "chained (a # b # rest) =
     (backIndex (asMatrix a) = frontIndex (asMatrix b) \<and> chained (b # rest))"

text \<open>
  What \<^verbatim>\<open>append\<close> stores for a given element: the element itself, or, for a \<^verbatim>\<open>Space\<close>, the
  element with both indices set to one value.
\<close>

definition adopted :: "element \<Rightarrow> element \<Rightarrow> bool" where
  "adopted given stored =
     (stored = given \<or>
      (isSpaceInstance given \<and> stored = setIndices given (frontIndex (asMatrix stored))))"

text \<open>
  The fields that no edit writes: the trace cache and the iteration counter.
  \<open>soundAggregate\<close> is the state of the aggregate that \<^verbatim>\<open>append\<close> maintains: current
  whenever the list is not empty. \<open>replayed\<close> is what holds of the outcome of a
  sequence of calls of \<^verbatim>\<open>append\<close> on elements: it raises \<^verbatim>\<open>ValueError\<close> or nothing.
\<close>

definition keepsCache :: "group \<Rightarrow> group \<Rightarrow> bool" where
  "keepsCache g g' = (traceCache g' = traceCache g \<and> iteration g' = iteration g)"

definition soundAggregate :: "group \<Rightarrow> bool" where
  "soundAggregate g = (elements g = [] \<or> aggregateCurrent g)"

fun benign :: "error option \<Rightarrow> bool" where
  "benign None = True"
| "benign (Some e) = (e = ValueError)"

definition replayed :: "group \<Rightarrow> outcome \<Rightarrow> bool" where
  "replayed g r = (benign (raised r) \<and> keepsCache g (after r))"

text \<open>
  Examples. \<open>glassInterface\<close> is \<^verbatim>\<open>Matrix(A=1, B=0, C=0, D=1, frontIndex=1.0, backIndex=1.5)\<close>
  and \<open>airInterface\<close> is \<^verbatim>\<open>Matrix(A=1, B=0, C=0, D=1, frontIndex=1.5, backIndex=1.0)\<close>: two
  elements of length 0 that are not instances of \<^verbatim>\<open>Space\<close>. The groups are
  \<^verbatim>\<open>MatrixGroup([Space(10)])\<close>, \<^verbatim>\<open>MatrixGroup([Space(10), glassInterface])\<close>,
  \<^verbatim>\<open>MatrixGroup([Space(10), Lens(10), Space(10)])\<close>, \<^verbatim>\<open>MatrixGroup([Space(2), Space(3)])\<close> and
  \<^verbatim>\<open>MatrixGroup([Space(5), glassInterface, airInterface, Space(3)])\<close>.
\<close>

definition glassInterface :: element where
  "glassInterface = Leaf False ((Matrix 1 0 0 1)\<lparr>backIndex := 3 / 2\<rparr>) (\<lambda>m upTo. m)"

definition airInterface :: element where
  "airInterface = Leaf False ((Matrix 1 0 0 1)\<lparr>frontIndex := 3 / 2\<rparr>) (\<lambda>m upTo. m)"

definition oneSpace :: group where
  "oneSpace = after (newMatrixGroup (PIter [PElem (Space 10)]))"

definition intoGlass :: group where
  "intoGlass = after (newMatrixGroup (PIter [PElem (Space 10), PElem glassInterface]))"

definition pathG :: group where
  "pathG = after (spacerLensSpacer 10 10 10)"

definition twoSpaces :: group where
  "twoSpaces = after (newMatrixGroup (PIter [PElem (Space 2), PElem (Space 3)]))"

definition thinGlass :: group where
  "thinGlass = after (newMatrixGroup
     (PIter [PElem (Space 5), PElem glassInterface, PElem airInterface, PElem (Space 3)]))"

text \<open>
  The position that \<^verbatim>\<open>removeElement(index)\<close> takes out (\<^verbatim>\<open>index += maxIndex\<close> for a negative
  index) and the length \<^verbatim>\<open>element.L\<close> of the element there.
\<close>

definition removedIndex :: "group \<Rightarrow> int \<Rightarrow> nat" where
  "removedIndex self index0 = nat (normIndex index0 (int (length (elements self))))"

definition removedLength :: "group \<Rightarrow> int \<Rightarrow> real" where
  "removedLength self index0 = L (asMatrix (elements self ! removedIndex self index0))"

text \<open>
  Whether an element is a single matrix and not a nested group, the blocked flag of a
  traced state and its height. A Gaussian beam has no flag and no height: it is never
  blocked, and the statements that use \<open>lightHeight\<close> are about rays.
\<close>

fun isLeaf :: "element \<Rightarrow> bool" where
  "isLeaf (Leaf sp m p) = True"
| "isLeaf (Sub g) = False"

fun lightBlocked :: "light \<Rightarrow> bool" where
  "lightBlocked (IsRay r) = isBlocked r"
| "lightBlocked (IsBeam b) = False"

fun lightHeight :: "light \<Rightarrow> real" where
  "lightHeight (IsRay r) = y r"
| "lightHeight (IsBeam b) = 0"

fun isRay :: "light \<Rightarrow> bool" where
  "isRay (IsRay r) = True"
| "isRay (IsBeam b) = False"

text \<open>
  Examples. \<open>aperture diameter\<close> is \<^verbatim>\<open>Matrix(A=1, B=0, C=0, D=1, apertureDiameter=diameter)\<close>.
  The groups are \<^verbatim>\<open>MatrixGroup([Space(10), aperture(2), Space(10)])\<close> and
  \<^verbatim>\<open>MatrixGroup([Space(10), MatrixGroup([Space(2), Space(3)])])\<close>, the ray is
  \<^verbatim>\<open>Ray(y=0, theta=0.2)\<close>.
\<close>

definition aperture :: "real \<Rightarrow> element" where
  "aperture diameter =
     Leaf False ((Matrix 1 0 0 1)\<lparr>apertureDiameter := Some diameter\<rparr>) (\<lambda>m upTo. m)"

definition clipped :: group where
  "clipped = after (newMatrixGroup
     (PIter [PElem (Space 10), PElem (aperture 2), PElem (Space 10)]))"

definition nested :: group where
  "nested = after (newMatrixGroup (PIter [PElem (Space 10), PElem (Sub twoSpaces)]))"

definition slanted :: ray where
  "slanted = \<lparr>rid = 0, y = 0, theta = 1 / 5, z = 0, isBlocked = False\<rparr>"

text \<open>
  The structural edits of a group, as one type, and the call of one of them.
\<close>

datatype edit =
    Append pyvalue
  | RemoveElement int bool
  | InsertElement int pyvalue
  | ReplaceSingle int pyvalue
  | ReplaceChunk int int pyvalue

fun applyEdit :: "edit \<Rightarrow> group \<Rightarrow> outcome" where
  "applyEdit (Append v) self = append self v"
| "applyEdit (RemoveElement index pad) self = removeElement self index pad"
| "applyEdit (InsertElement index v) self = insertElement self index v"
| "applyEdit (ReplaceSingle index v) self = replaceSingle self index v"
| "applyEdit (ReplaceChunk startIndex stopIndex v) self = replaceChunk self startIndex stopIndex v"

text \<open>
  Examples: the group \<^verbatim>\<open>Space(10), Lens(10), Space(10)\<close> after it has traced the ray
  \<^verbatim>\<open>Ray(y=0, theta=0.2)\<close>, the same group after \<^verbatim>\<open>append(Space(5))\<close>, and a second ray object
  with the same height and angle.
\<close>

definition tracedPath :: group where
  "tracedPath = fst (snd (trace pathG (PLight (IsRay slanted)) 1))"

definition longerPath :: group where
  "longerPath = after (applyEdit (Append (PElem (Space 5))) tracedPath)"

definition twin :: ray where
  "twin = slanted\<lparr>rid := 7\<rparr>"

section \<open>The walk of \<^verbatim>\<open>transferMatrix\<close>\<close>

lemma lengthOf_simps [simp]:
  "lengthOf [] = 0" "lengthOf (e # es) = L (asMatrix e) + lengthOf es"
  by (simp_all add: lengthOf_def)

lemma composeAll_simps [simp]:
  "composeAll start [] = start"
  "composeAll start (e # es) = composeAll (mul_matrix (asMatrix e) start) es"
  by (simp_all add: composeAll_def)

lemma lengthOf_nonneg: "\<forall>e\<in>set es. 0 \<le> L (asMatrix e) \<Longrightarrow> 0 \<le> lengthOf es"
  by (induction es) auto

lemma transferLoop_prefix:
  "\<forall>e\<in>set pre. 0 \<le> L (asMatrix e) \<Longrightarrow> lengthOf pre \<le> d \<Longrightarrow>
   transferLoop (pre @ post) (Finite d) acc =
     transferLoop post (Finite (d - lengthOf pre)) (composeAll acc pre)"
proof (induction pre arbitrary: d acc)
  case Nil
  then show ?case by simp
next
  case (Cons e pre)
  have "0 \<le> lengthOf pre" using Cons.prems(1) by (intro lengthOf_nonneg) simp
  with Cons.prems(2) have fit: "L (asMatrix e) \<le> d" by simp
  have "lengthOf pre \<le> d - L (asMatrix e)" using Cons.prems(2) by simp
  from Cons.IH [OF _ this] Cons.prems(1) fit show ?case
    by (simp add: algebra_simps)
qed

lemma transferLoop_PlusInf: "transferLoop es PlusInf acc = composeAll acc es"
  by (induction es arbitrary: acc) auto

lemma spacerLensSpacer_elements:
  "raised (spacerLensSpacer d1 f d2) = None \<and>
   elements (after (spacerLensSpacer d1 f d2)) = [Space d1, Lens f, Space d2]"
  by (simp add: spacerLensSpacer_def emptyGroup_def andThen_def addElement_def recompute_def
      setElements_def Space_def Lens_def Matrix_def Let_def)

lemma spacerLensSpacer_at_d1:
  assumes "0 \<le> d2"
  shows "abcd (transferMatrix (after (spacerLensSpacer d1 f d2)) (Finite d1)) =
    (1, d1, - 1 / f, 1 - d1 / f)"
  using assms
  by (simp add: transferMatrix_def spacerLensSpacer_elements Space_def Lens_def Matrix_def
      mul_matrix_def abcd_def)

lemma spacerLensSpacer_before_d1:
  assumes "u < d1"
  shows "abcd (transferMatrix (after (spacerLensSpacer d1 f d2)) (Finite u)) = (1, u, 0, 1)"
  using assms
  by (simp add: transferMatrix_def spacerLensSpacer_elements Space_def Lens_def Matrix_def
      mul_matrix_def abcd_def)

text \<open>
  C1 (amended). \<^verbatim>\<open>transferMatrix(upTo)\<close> with a finite \<open>upTo\<close> walks the elements in order.
  When the elements \<open>pre\<close> (of lengths \<open>\<ge> 0\<close>) fit into the distance and the next element
  \<open>e\<close> is longer than what remains, the result is the product of \<open>pre\<close>, multiplied in
  fully, with exactly one partial element on top: \<open>e\<close>'s own
  \<^verbatim>\<open>transferMatrix(upTo=remaining)\<close>; the elements after \<open>e\<close> play no part. When all
  elements fit, the result is the full product. For the sequence
  \<^verbatim>\<open>Space(d1), Lens(f), Space(d2)\<close> with \<open>d2 \<ge> 0\<close>, the lens has length 0, so at
  \<open>upTo = d1\<close> the test \<^verbatim>\<open>element.L <= distance\<close> is \<open>0 \<le> 0\<close> and the lens is multiplied in:
  the result is \<open>[[1, d1], [-1/f, 1 - d1/f]]\<close>. The translation \<open>[[1, upTo], [0, 1]]\<close> is
  the result for \<open>upTo < d1\<close>.
\<close>

theorem transferMatrix_walk:
  "(elements self = pre @ e # post \<and> (\<forall>x\<in>set pre. 0 \<le> L (asMatrix x)) \<and>
      lengthOf pre \<le> d \<and> d - lengthOf pre < L (asMatrix e) \<longrightarrow>
    transferMatrix self (Finite d) =
      mul_matrix (elementTransferMatrix e (Finite (d - lengthOf pre)))
        (composeAll (Matrix 1 0 0 1) pre)) \<and>
   ((\<forall>x\<in>set (elements self). 0 \<le> L (asMatrix x)) \<and> lengthOf (elements self) \<le> d \<longrightarrow>
    transferMatrix self (Finite d) = composeAll (Matrix 1 0 0 1) (elements self)) \<and>
   (0 \<le> d2 \<and> f \<noteq> 0 \<longrightarrow>
    raised (spacerLensSpacer d1 f d2) = None \<and>
    abcd (transferMatrix (after (spacerLensSpacer d1 f d2)) (Finite d1)) =
      (1, d1, - 1 / f, 1 - d1 / f)) \<and>
   (u < d1 \<longrightarrow>
    abcd (transferMatrix (after (spacerLensSpacer d1 f d2)) (Finite u)) = (1, u, 0, 1))"
proof (intro conjI impI)
  assume h: "elements self = pre @ e # post \<and> (\<forall>x\<in>set pre. 0 \<le> L (asMatrix x)) \<and>
      lengthOf pre \<le> d \<and> d - lengthOf pre < L (asMatrix e)"
  then have "transferLoop (pre @ e # post) (Finite d) (Matrix 1 0 0 1) =
      transferLoop (e # post) (Finite (d - lengthOf pre)) (composeAll (Matrix 1 0 0 1) pre)"
    by (intro transferLoop_prefix) auto
  with h show "transferMatrix self (Finite d) =
      mul_matrix (elementTransferMatrix e (Finite (d - lengthOf pre)))
        (composeAll (Matrix 1 0 0 1) pre)"
    by (simp add: transferMatrix_def)
next
  assume h: "(\<forall>x\<in>set (elements self). 0 \<le> L (asMatrix x)) \<and> lengthOf (elements self) \<le> d"
  then have "transferLoop (elements self @ []) (Finite d) (Matrix 1 0 0 1) =
      transferLoop [] (Finite (d - lengthOf (elements self)))
        (composeAll (Matrix 1 0 0 1) (elements self))"
    by (intro transferLoop_prefix) auto
  then show "transferMatrix self (Finite d) = composeAll (Matrix 1 0 0 1) (elements self)"
    by (simp add: transferMatrix_def)
next
  show "raised (spacerLensSpacer d1 f d2) = None"
    by (simp add: spacerLensSpacer_elements)
next
  assume "0 \<le> d2 \<and> f \<noteq> 0"
  then show "abcd (transferMatrix (after (spacerLensSpacer d1 f d2)) (Finite d1)) =
      (1, d1, - 1 / f, 1 - d1 / f)"
    by (simp add: spacerLensSpacer_at_d1)
next
  assume "u < d1"
  then show "abcd (transferMatrix (after (spacerLensSpacer d1 f d2)) (Finite u)) = (1, u, 0, 1)"
    by (rule spacerLensSpacer_before_d1)
qed

text \<open>
  The example of the docstring of \<^verbatim>\<open>transferMatrix\<close>: \<^verbatim>\<open>Space(10), Lens(10), Space(10)\<close> up to
  15 is the lens after 10 of space, followed by 5 of the second space.
\<close>

theorem transferMatrix_walk_witness:
  "elements (after (spacerLensSpacer 10 10 10)) = [Space 10, Lens 10] @ Space 10 # [] \<and>
   0 \<le> L (asMatrix (Space 10)) \<and> 0 \<le> L (asMatrix (Lens 10)) \<and>
   lengthOf [Space 10, Lens 10] \<le> 15 \<and> 15 - lengthOf [Space 10, Lens 10] < L (asMatrix (Space 10)) \<and>
   (0::real) \<le> 10 \<and> (10::real) \<noteq> 0 \<and> (5::real) < 10 \<and>
   abcd (transferMatrix (after (spacerLensSpacer 10 10 10)) (Finite 15)) = (1 / 2, 10, - 1 / 10, 0) \<and>
   abcd (transferMatrix (after (spacerLensSpacer 10 10 10)) (Finite 10)) = (1, 10, - 1 / 10, 0) \<and>
   abcd (transferMatrix (after (spacerLensSpacer 10 10 10)) (Finite 5)) = (1, 5, 0, 1)"
  using transferMatrix_walk [of "after (spacerLensSpacer 10 10 10)" "[Space 10, Lens 10]"
      "Space 10" "[]" 15 10 10 10 5]
  by (simp add: spacerLensSpacer_elements Space_def Lens_def Matrix_def mul_matrix_def abcd_def)

theorem transferMatrix_at_d1_counterexample:
  "abcd (transferMatrix (after (spacerLensSpacer 10 10 10)) (Finite 10)) \<noteq> (1, 10, 0, 1)"
  using spacerLensSpacer_at_d1 [of 10 10 10] by simp

lemma recompute_sel [simp]:
  "elements (recompute g) = elements g"
  "iteration (recompute g) = iteration g"
  "traceCache (recompute g) = traceCache g"
  by (simp_all add: recompute_def Let_def)

lemma setElements_sel [simp]:
  "elements (setElements g es) = es"
  "iteration (setElements g es) = iteration g"
  "traceCache (setElements g es) = traceCache g"
  "agg (setElements g es) = agg g"
  by (simp_all add: setElements_def)

lemma transferMatrix_elements:
  "elements g = elements g' \<Longrightarrow> transferMatrix g u = transferMatrix g' u"
  by (simp add: transferMatrix_def)

lemma aggregateCurrent_recompute [simp]: "aggregateCurrent (recompute g)"
  by (simp add: aggregateCurrent_def aggregateFields_def recompute_def Let_def
      transferMatrix_def)

lemma addElement_sel [simp]:
  "elements (addElement g m) = elements g @ [m]"
  "iteration (addElement g m) = iteration g"
  "traceCache (addElement g m) = traceCache g"
  "aggregateCurrent (addElement g m)"
  by (simp_all add: addElement_def)

lemma append_raised_unchanged:
  "raised (append self v) \<noteq> None \<Longrightarrow> after (append self v) = self"
  by (cases v) (auto split: if_splits)

lemma append_raised_kind:
  "raised (append self v) = Some e \<Longrightarrow> e = TypeError \<or> e = ValueError"
  by (cases v) (auto split: if_splits)

lemma append_elem_not_TypeError: "raised (append self (PElem m)) \<noteq> Some TypeError"
  by (auto split: if_splits)

lemma append_ok:
  "raised (append self (PElem m)) = None \<Longrightarrow>
   \<exists>m'. after (append self (PElem m)) = addElement self m' \<and>
     (m' = m \<or> (isSpaceInstance m \<and> elements self \<noteq> [] \<and>
        m' = setIndices m (backIndex (asMatrix (last (elements self))))))"
  by (auto split: if_splits)

lemma andThen_simps [simp]:
  "andThen (Outcome None ws g) f = Outcome (raised (f g)) (ws @ warned (f g)) (after (f g))"
  "andThen (Outcome (Some e) ws g) f = Outcome (Some e) ws g"
  by (simp_all add: andThen_def Let_def)

lemma andThen_unit [simp]: "andThen (Outcome None [] g) f = f g"
  by simp

lemma andThen_assoc:
  "andThen (andThen r f) h = andThen r (\<lambda>g. andThen (f g) h)"
  by (cases r) (auto simp: andThen_def Let_def split: option.splits)

lemma raised_andThen:
  "raised (andThen r f) = (case raised r of Some e \<Rightarrow> Some e | None \<Rightarrow> raised (f (after r)))"
  by (cases r) (auto simp: andThen_def Let_def split: option.splits)

lemma after_andThen:
  "after (andThen r f) = (case raised r of Some e \<Rightarrow> after r | None \<Rightarrow> after (f (after r)))"
  by (cases r) (auto simp: andThen_def Let_def split: option.splits)

lemma appendAll_append:
  "appendAll g (xs @ ys) = andThen (appendAll g xs) (\<lambda>g'. appendAll g' ys)"
proof (induction xs arbitrary: g)
  case Nil
  show ?case by simp
next
  case (Cons x xs)
  show ?case by (simp add: Cons.IH andThen_assoc)
qed

lemma removeLoop_appendAll:
  "i \<le> index \<Longrightarrow> index < i + int (length es) \<Longrightarrow>
   removeLoop index pad i es g =
     appendAll g (map PElem
       (take (nat (index - i)) es @
        (if L (asMatrix (es ! nat (index - i))) > 0 \<and> pad
         then [Space (L (asMatrix (es ! nat (index - i))))] else []) @
        drop (Suc (nat (index - i))) es))"
  and removeLoop_past:
  "index < i \<Longrightarrow> removeLoop index pad i es g = appendAll g (map PElem es)"
proof (induction es arbitrary: i g)
  case Nil
  { case 1 then show ?case by simp }
  { case 2 then show ?case by simp }
next
  case (Cons e es)
  { case 1
    show ?case
    proof (cases "i = index")
      case True
      have "removeLoop index pad (index + 1) es = (\<lambda>g. appendAll g (map PElem es))"
        by (rule ext) (simp add: Cons(2))
      then show ?thesis using True by (auto simp del: append.simps)
    next
      case False
      with 1 have lt: "i + 1 \<le> index" "index < i + 1 + int (length es)" by auto
      have n: "nat (index - i) = Suc (nat (index - (i + 1)))" using lt by auto
      have "removeLoop index pad (i + 1) es = (\<lambda>g. appendAll g (map PElem
         (take (nat (index - (i + 1))) es @
          (if L (asMatrix (es ! nat (index - (i + 1)))) > 0 \<and> pad
           then [Space (L (asMatrix (es ! nat (index - (i + 1)))))] else []) @
          drop (Suc (nat (index - (i + 1)))) es)))"
        by (rule ext) (rule Cons(1) [OF lt])
      then show ?thesis using False by (simp add: n del: append.simps)
    qed }
  { case 2
    have "removeLoop index pad (i + 1) es = (\<lambda>g. appendAll g (map PElem es))"
      using 2 by (intro ext Cons(2)) simp
    then show ?case using 2 by (simp del: append.simps) }
qed

lemma insertLoop_appendAll:
  "i \<le> index \<Longrightarrow> index < i + int (length es) \<Longrightarrow>
   insertLoop index new i es g =
     appendAll g (map PElem
       (take (nat (index - i)) es @ elements new @ drop (nat (index - i)) es))"
  and insertLoop_past:
  "index < i \<Longrightarrow> insertLoop index new i es g = appendAll g (map PElem es)"
proof (induction es arbitrary: i g)
  case Nil
  { case 1 then show ?case by simp }
  { case 2 then show ?case by simp }
next
  case (Cons e es)
  { case 1
    show ?case
    proof (cases "i = index")
      case True
      have "insertLoop index new (index + 1) es = (\<lambda>g. appendAll g (map PElem es))"
        by (rule ext) (simp add: Cons(2))
      then show ?thesis using True
        by (simp add: appendEach_def appendAll_append del: append.simps)
    next
      case False
      with 1 have lt: "i + 1 \<le> index" "index < i + 1 + int (length es)" by auto
      have n: "nat (index - i) = Suc (nat (index - (i + 1)))" using lt by auto
      have "insertLoop index new (i + 1) es = (\<lambda>g. appendAll g (map PElem
         (take (nat (index - (i + 1))) es @ elements new @ drop (nat (index - (i + 1))) es)))"
        by (rule ext) (rule Cons(1) [OF lt])
      then show ?thesis using False by (simp add: n del: append.simps)
    qed }
  { case 2
    have "insertLoop index new (i + 1) es = (\<lambda>g. appendAll g (map PElem es))"
      using 2 by (intro ext Cons(2)) simp
    then show ?case using 2 by (simp del: append.simps) }
qed

lemma append_elem_facts:
  "benign (raised (append g (PElem m)))"
  "keepsCache g (after (append g v))"
  "soundAggregate g \<Longrightarrow> soundAggregate (after (append g v))"
  by (cases v; auto simp: keepsCache_def soundAggregate_def split: if_splits)+

lemma keepsCache_trans: "keepsCache a b \<Longrightarrow> keepsCache b c \<Longrightarrow> keepsCache a c"
  by (simp add: keepsCache_def)

lemma keepsCache_refl [simp]: "keepsCache a a"
  by (simp add: keepsCache_def)

lemma andThen_invariant:
  assumes "benign (raised r)" "keepsCache g (after r)" "soundAggregate (after r)"
    and "\<And>g'. benign (raised (f g')) \<and> keepsCache g' (after (f g')) \<and>
               (soundAggregate g' \<longrightarrow> soundAggregate (after (f g')))"
  shows "benign (raised (andThen r f)) \<and> keepsCache g (after (andThen r f)) \<and>
         soundAggregate (after (andThen r f))"
proof (cases "raised r")
  case None
  then show ?thesis
    using assms(2,3) assms(4) [of "after r"]
    by (auto simp: raised_andThen after_andThen intro: keepsCache_trans)
next
  case (Some e)
  then show ?thesis
    using assms(1,2,3) by (simp add: raised_andThen after_andThen)
qed

lemma appendAll_invariant:
  "soundAggregate g \<Longrightarrow>
   benign (raised (appendAll g (map PElem ys))) \<and>
   keepsCache g (after (appendAll g (map PElem ys))) \<and>
   soundAggregate (after (appendAll g (map PElem ys)))"
proof (induction ys arbitrary: g)
  case Nil
  then show ?case by simp
next
  case (Cons y ys)
  have a: "benign (raised (append g (PElem y)))" "keepsCache g (after (append g (PElem y)))"
    "soundAggregate (after (append g (PElem y)))"
    using Cons.prems by (simp_all add: append_elem_facts del: append.simps)
  show ?case
  proof (cases "raised (append g (PElem y))")
    case None
    with a Cons.IH [of "after (append g (PElem y))"] show ?thesis
      by (auto simp: raised_andThen after_andThen simp del: append.simps
          intro: keepsCache_trans)
  next
    case (Some e)
    with a show ?thesis
      by (simp add: raised_andThen after_andThen del: append.simps)
  qed
qed

lemma soundAggregate_emptied [simp]: "soundAggregate (setElements g [])"
  by (simp add: soundAggregate_def)

lemma keepsCache_emptied [simp]: "keepsCache g (setElements g [])"
  by (simp add: keepsCache_def)

lemma replayed_append [simp]: "replayed g (append g (PElem m))"
  by (simp add: replayed_def append_elem_facts del: append.simps)

lemma replayed_done [simp]: "replayed g (Outcome None ws g)"
  by (simp add: replayed_def)

lemma replayed_warnIf [simp]: "replayed g (warnIf c w g)"
  by (simp add: replayed_def warnIf_def)

lemma replayed_andThen:
  assumes "replayed g r" and "\<And>g'. replayed g' (f g')"
  shows "replayed g (andThen r f)"
proof (cases "raised r")
  case None
  then show ?thesis
    using assms(1) assms(2) [of "after r"]
    by (auto simp: replayed_def raised_andThen after_andThen intro: keepsCache_trans)
next
  case (Some e)
  then show ?thesis
    using assms(1) by (simp add: replayed_def raised_andThen after_andThen)
qed

lemma replayed_appendAll [simp]: "replayed g (appendAll g (map PElem ys))"
  by (induction ys arbitrary: g) (auto intro!: replayed_andThen simp del: append.simps)

lemma replayed_appendEach [simp]: "replayed g (appendEach g new)"
  by (simp add: appendEach_def)

lemma replayed_removeLoop [simp]: "replayed g (removeLoop index pad i es g)"
  by (induction es arbitrary: i g) (auto intro!: replayed_andThen simp del: append.simps)

lemma replayed_insertLoop [simp]: "replayed g (insertLoop index new i es g)"
  by (induction es arbitrary: i g) (auto intro!: replayed_andThen simp del: append.simps)

lemma replayed_replaceSingleLoop [simp]: "replayed g (replaceSingleLoop index new i es g)"
  by (induction es arbitrary: i g) (auto intro!: replayed_andThen simp del: append.simps)

lemma replayed_replaceChunkLoop [simp]:
  "replayed g (replaceChunkLoop startIndex stopIndex new i es g)"
  by (induction es arbitrary: i g) (auto intro!: replayed_andThen simp del: append.simps)

lemma replayed_not_IndexError:
  "replayed g r \<Longrightarrow> raised r = Some e \<Longrightarrow> \<not> isIndexError e"
  by (auto simp: replayed_def)

lemma removeElement_IndexError:
  assumes "raised (removeElement self i pad) = Some e" "isIndexError e"
  shows "after (removeElement self i pad) = self"
proof (rule ccontr)
  assume neq: "after (removeElement self i pad) \<noteq> self"
  let ?n = "int (length (elements self))"
  have inb: "\<not> (normIndex i ?n \<ge> ?n \<or> normIndex i ?n < 0)"
    using neq by (auto simp: removeElement_def Let_def)
  then have "removeElement self i pad =
      removeLoop (normIndex i ?n) pad 0 (elements self) (setElements self [])"
    by (simp add: removeElement_def Let_def)
  with assms replayed_not_IndexError [OF replayed_removeLoop] show False
    by metis
qed

lemma benign_not_IndexError: "benign (Some e) \<Longrightarrow> \<not> isIndexError e"
  by simp

lemma replayed_benign: "replayed g r \<Longrightarrow> benign (raised r)"
  by (simp add: replayed_def)

lemma insertElement_IndexError:
  assumes "raised (insertElement self i arg) = Some e" "isIndexError e"
  shows "after (insertElement self i arg) = self"
proof (cases "raised (groupOf arg)")
  case (Some e')
  then show ?thesis by (simp add: insertElement_def Let_def)
next
  case None
  let ?n = "int (length (elements self))"
  let ?i = "normIndex i ?n"
  show ?thesis
  proof (cases "?i > ?n \<or> ?i < 0")
    case True
    with None show ?thesis by (simp add: insertElement_def Let_def)
  next
    case False
    have "benign (raised (appendEach self (after (groupOf arg))))"
      "benign (raised (insertLoop ?i (after (groupOf arg)) 0 (elements self)
         (setElements self [])))"
      by (rule replayed_benign [OF replayed_appendEach])
        (rule replayed_benign [OF replayed_insertLoop])
    with None False have "benign (raised (insertElement self i arg))"
      by (simp add: insertElement_def Let_def)
    with assms show ?thesis by simp
  qed
qed

lemma replaceSingle_IndexError:
  assumes "raised (replaceSingle self i arg) = Some e" "isIndexError e"
  shows "after (replaceSingle self i arg) = self"
proof (cases "raised (groupOf arg)")
  case (Some e')
  then show ?thesis by (simp add: replaceSingle_def Let_def)
next
  case None
  let ?n = "int (length (elements self))"
  let ?i = "normIndex i ?n"
  show ?thesis
  proof (cases "?i \<ge> ?n \<or> ?i < 0")
    case True
    with None show ?thesis by (simp add: replaceSingle_def Let_def)
  next
    case False
    have "benign (raised (replaceSingleLoop ?i (after (groupOf arg)) 0 (elements self)
         (setElements self [])))"
      by (rule replayed_benign [OF replayed_replaceSingleLoop])
    with None False have "benign (raised (replaceSingle self i arg))"
      by (simp add: replaceSingle_def Let_def)
    with assms show ?thesis by simp
  qed
qed

lemma replaceChunk_IndexError:
  assumes "raised (replaceChunk self i j arg) = Some e" "isIndexError e"
  shows "after (replaceChunk self i j arg) = self"
proof (cases "raised (groupOf arg)")
  case (Some e')
  then show ?thesis by (simp add: replaceChunk_def Let_def)
next
  case None
  let ?n = "int (length (elements self))"
  let ?i = "normIndex i ?n"
  let ?j = "normIndex j ?n"
  show ?thesis
  proof (cases "(?i \<ge> ?n \<or> ?i < 0) \<or> (?j \<ge> ?n \<or> ?j < 0) \<or> ?i = ?j")
    case True
    with None show ?thesis by (auto simp add: replaceChunk_def Let_def)
  next
    case False
    let ?sl = "getSlice self (min ?i ?j) (max ?i ?j + 1)"
    show ?thesis
    proof (cases "raised ?sl")
      case (Some e')
      with None False show ?thesis by (simp add: replaceChunk_def Let_def)
    next
      case sl: None
      have "benign (raised (replaceChunkLoop (min ?i ?j) (max ?i ?j) (after (groupOf arg)) 0
          (elements self) (setElements self [])))"
        by (rule replayed_benign [OF replayed_replaceChunkLoop])
      with None False sl have "benign (raised (replaceChunk self i j arg))"
        by (simp add: replaceChunk_def Let_def warnIf_def)
      with assms show ?thesis by simp
    qed
  qed
qed

lemma setIndices_indices [simp]:
  "frontIndex (asMatrix (setIndices m n)) = n" "backIndex (asMatrix (setIndices m n)) = n"
  "L (asMatrix (setIndices m n)) = L (asMatrix m)"
  "isSpaceInstance (setIndices m n) = isSpaceInstance m"
  by (induction m n rule: setIndices.induct) simp_all

lemma oneSpace_elements: "elements oneSpace = [Space 10]"
  by (simp add: oneSpace_def emptyGroup_def)

lemma intoGlass_elements: "elements intoGlass = [Space 10, glassInterface]"
  by (simp add: intoGlass_def emptyGroup_def Space_def glassInterface_def Matrix_def)

text \<open>
  C4. On a non-empty group, appending an element whose \<^verbatim>\<open>frontIndex\<close> differs from the
  \<^verbatim>\<open>backIndex\<close> of the last element: an instance of \<^verbatim>\<open>Space\<close> is accepted, a warning is
  emitted, and the element stored at the end has both indices equal to the neighbour's
  \<^verbatim>\<open>backIndex\<close>; any other element raises \<^verbatim>\<open>ValueError\<close> (and the group is as before).
\<close>

theorem append_mismatched_index:
  "elements self \<noteq> [] \<and>
   backIndex (asMatrix (last (elements self))) \<noteq> frontIndex (asMatrix matrix) \<longrightarrow>
   (if isSpaceInstance matrix
    then raised (append self (PElem matrix)) = None \<and>
         warned (append self (PElem matrix)) = [FixingMismatchedIndices] \<and>
         elements (after (append self (PElem matrix))) =
           elements self @ [setIndices matrix (backIndex (asMatrix (last (elements self))))] \<and>
         frontIndex (asMatrix (last (elements (after (append self (PElem matrix)))))) =
           backIndex (asMatrix (last (elements self))) \<and>
         backIndex (asMatrix (last (elements (after (append self (PElem matrix)))))) =
           backIndex (asMatrix (last (elements self)))
    else raised (append self (PElem matrix)) = Some ValueError \<and>
         after (append self (PElem matrix)) = self)"
  by simp

text \<open>
  After an interface into glass (\<^verbatim>\<open>backIndex\<close> 1.5), \<^verbatim>\<open>Space(5)\<close> is stored with both indices
  1.5 and \<^verbatim>\<open>Lens(10)\<close> is refused.
\<close>

theorem append_mismatched_index_witness:
  "elements intoGlass \<noteq> [] \<and>
   backIndex (asMatrix (last (elements intoGlass))) = 3 / 2 \<and>
   frontIndex (asMatrix (Space 5)) = 1 \<and> isSpaceInstance (Space 5) \<and>
   raised (append intoGlass (PElem (Space 5))) = None \<and>
   warned (append intoGlass (PElem (Space 5))) = [FixingMismatchedIndices] \<and>
   frontIndex (asMatrix (last (elements (after (append intoGlass (PElem (Space 5))))))) = 3 / 2 \<and>
   backIndex (asMatrix (last (elements (after (append intoGlass (PElem (Space 5))))))) = 3 / 2 \<and>
   frontIndex (asMatrix (Lens 10)) = 1 \<and> \<not> isSpaceInstance (Lens 10) \<and>
   raised (append intoGlass (PElem (Lens 10))) = Some ValueError"
  using append_mismatched_index [of intoGlass "Space 5"]
    append_mismatched_index [of intoGlass "Lens 10"]
  by (simp add: intoGlass_elements glassInterface_def Space_def Lens_def Matrix_def)

text \<open>
  C5 (amended). A call that raises one of these errors leaves the group as it was: any
  error of \<^verbatim>\<open>append\<close> called on the group (\<^verbatim>\<open>TypeError\<close> for an argument that is no element,
  \<^verbatim>\<open>ValueError\<close> for mismatched indices), the \<^verbatim>\<open>TypeError\<close> of \<^verbatim>\<open>trace\<close>, and an \<^verbatim>\<open>IndexError\<close>
  of \<^verbatim>\<open>removeElement\<close>, \<^verbatim>\<open>insertElement\<close>, \<^verbatim>\<open>replaceSingle\<close> or \<^verbatim>\<open>replaceChunk\<close>: elements,
  aggregate fields, iteration counter and cache are those before the call. (An
  \<^verbatim>\<open>IndexError\<close> can only come from the bounds checks, which precede the first assignment to
  \<^verbatim>\<open>self.elements\<close>: the replayed calls of \<^verbatim>\<open>append\<close> raise nothing but \<^verbatim>\<open>ValueError\<close>.)
\<close>

theorem errors_leave_state:
  "(raised (append self v) = Some e \<longrightarrow> after (append self v) = self) \<and>
   (fst (trace self v fresh) = Inl e \<longrightarrow> fst (snd (trace self v fresh)) = self) \<and>
   (raised (removeElement self i pad) = Some e \<and> isIndexError e \<longrightarrow>
      after (removeElement self i pad) = self) \<and>
   (raised (insertElement self i arg) = Some e \<and> isIndexError e \<longrightarrow>
      after (insertElement self i arg) = self) \<and>
   (raised (replaceSingle self i arg) = Some e \<and> isIndexError e \<longrightarrow>
      after (replaceSingle self i arg) = self) \<and>
   (raised (replaceChunk self i j arg) = Some e \<and> isIndexError e \<longrightarrow>
      after (replaceChunk self i j arg) = self)"
proof (intro conjI impI)
  assume "raised (append self v) = Some e"
  then show "after (append self v) = self"
    by (intro append_raised_unchanged) simp
next
  assume "fst (trace self v fresh) = Inl e"
  then show "fst (snd (trace self v fresh)) = self"
    by (cases v) (auto split: prod.splits)
next
  assume "raised (removeElement self i pad) = Some e \<and> isIndexError e"
  then show "after (removeElement self i pad) = self"
    using removeElement_IndexError by blast
next
  assume "raised (insertElement self i arg) = Some e \<and> isIndexError e"
  then show "after (insertElement self i arg) = self"
    using insertElement_IndexError by blast
next
  assume "raised (replaceSingle self i arg) = Some e \<and> isIndexError e"
  then show "after (replaceSingle self i arg) = self"
    using replaceSingle_IndexError by blast
next
  assume "raised (replaceChunk self i j arg) = Some e \<and> isIndexError e"
  then show "after (replaceChunk self i j arg) = self"
    using replaceChunk_IndexError by blast
qed

text \<open>
  C3. The aggregate fields are recomputed by \<^verbatim>\<open>append\<close> only, so an edit that appends
  nothing leaves them as they were. \<^verbatim>\<open>MatrixGroup([Space(10)]).removeElement(0)\<close> returns
  normally with an empty list, while \<open>B\<close> and \<open>L\<close> of the group are still 10; the transfer
  matrix of the empty list is the identity of length 0. The claimed invariant fails here.
\<close>

theorem removeElement_last_stale:
  "raised (removeElement oneSpace 0 False) = None \<and>
   elements (after (removeElement oneSpace 0 False)) = [] \<and>
   aggregateFields (agg (after (removeElement oneSpace 0 False))) =
     (1, 10, 0, 1, 10, None, None) \<and>
   aggregateFields (transferMatrix (after (removeElement oneSpace 0 False)) PlusInf) =
     (1, 0, 0, 1, 0, None, None) \<and>
   \<not> aggregateCurrent (after (removeElement oneSpace 0 False))"
  by (simp add: removeElement_def normIndex_def oneSpace_elements aggregateCurrent_def
      aggregateFields_def transferMatrix_def Matrix_def,
      simp add: oneSpace_def emptyGroup_def addElement_def recompute_def transferMatrix_def
      Space_def Matrix_def mul_matrix_def Let_def)

lemma pathG_elements: "elements pathG = [Space 10, Lens 10, Space 10]"
  by (simp add: pathG_def spacerLensSpacer_elements)

lemma groupOf_Lens: "groupOf (PElem (Lens f)) = Outcome None [] (addElement emptyGroup (Lens f))"
  by (simp add: groupOf_def Lens_def emptyGroup_def)

lemma append_Lens_intoGlass:
  "raised (append intoGlass (PElem (Lens 10))) = Some ValueError \<and>
   after (append intoGlass (PElem (Lens 10))) = intoGlass"
  by (simp add: intoGlass_elements glassInterface_def Lens_def Matrix_def)

lemma pathG_bounds:
  "raised (removeElement pathG 3 False) = Some (IndexOutOfBound 3 2) \<and>
   after (removeElement pathG 3 False) = pathG \<and>
   raised (insertElement pathG 4 (PElem (Lens 5))) = Some (IndexOutOfBound 4 3) \<and>
   after (insertElement pathG 4 (PElem (Lens 5))) = pathG \<and>
   raised (replaceSingle pathG (- 4) (PElem (Lens 5))) = Some (IndexOutOfBound (- 1) 2) \<and>
   after (replaceSingle pathG (- 4) (PElem (Lens 5))) = pathG \<and>
   raised (replaceChunk pathG 1 1 (PElem (Lens 5))) = Some IndexStartStopEqual \<and>
   after (replaceChunk pathG 1 1 (PElem (Lens 5))) = pathG"
  by (simp add: removeElement_def insertElement_def replaceSingle_def replaceChunk_def
      normIndex_def pathG_elements groupOf_Lens Let_def)

text \<open>One raising call of each kind, on the group \<^verbatim>\<open>Space(10), Lens(10), Space(10)\<close>.\<close>

theorem errors_leave_state_witness:
  "raised (append pathG POther) = Some TypeError \<and> after (append pathG POther) = pathG \<and>
   raised (append intoGlass (PElem (Lens 10))) = Some ValueError \<and>
   after (append intoGlass (PElem (Lens 10))) = intoGlass \<and>
   fst (trace pathG POther 0) = Inl TypeError \<and> fst (snd (trace pathG POther 0)) = pathG \<and>
   raised (removeElement pathG 3 False) = Some (IndexOutOfBound 3 2) \<and>
   after (removeElement pathG 3 False) = pathG \<and>
   raised (insertElement pathG 4 (PElem (Lens 5))) = Some (IndexOutOfBound 4 3) \<and>
   after (insertElement pathG 4 (PElem (Lens 5))) = pathG \<and>
   raised (replaceSingle pathG (- 4) (PElem (Lens 5))) = Some (IndexOutOfBound (- 1) 2) \<and>
   after (replaceSingle pathG (- 4) (PElem (Lens 5))) = pathG \<and>
   raised (replaceChunk pathG 1 1 (PElem (Lens 5))) = Some IndexStartStopEqual \<and>
   after (replaceChunk pathG 1 1 (PElem (Lens 5))) = pathG"
  using errors_leave_state [of pathG POther TypeError 0 3 False "PElem (Lens 5)" 1]
    errors_leave_state [of intoGlass "PElem (Lens 10)" ValueError 0 3 False "PElem (Lens 5)" 1]
    errors_leave_state [of pathG POther "IndexOutOfBound 3 2" 0 3 False "PElem (Lens 5)" 1]
    append_Lens_intoGlass pathG_bounds
  by simp

lemma appendAll_adopted:
  "raised (appendAll g (map PElem ys)) = None \<Longrightarrow>
   \<exists>stored. elements (after (appendAll g (map PElem ys))) = elements g @ stored \<and>
     list_all2 adopted ys stored"
proof (induction ys arbitrary: g)
  case Nil
  then show ?case by simp
next
  case (Cons y ys)
  let ?r = "append g (PElem y)"
  from Cons.prems have r: "raised ?r = None"
    by (auto simp: raised_andThen simp del: append.simps split: option.splits)
  with Cons.prems have rest: "raised (appendAll (after ?r) (map PElem ys)) = None"
    by (simp add: raised_andThen del: append.simps)
  from append_ok [OF r] obtain m' where m': "after ?r = addElement g m'"
    "m' = y \<or> (isSpaceInstance y \<and> elements g \<noteq> [] \<and>
        m' = setIndices y (backIndex (asMatrix (last (elements g)))))"
    by blast
  from m'(2) have ad: "adopted y m'"
    by (auto simp: adopted_def)
  from Cons.IH [OF rest] obtain stored where
    st: "elements (after (appendAll (after ?r) (map PElem ys))) = elements (after ?r) @ stored"
      "list_all2 adopted ys stored"
    by blast
  have "after (appendAll g (map PElem (y # ys))) = after (appendAll (after ?r) (map PElem ys))"
    using r by (simp add: after_andThen del: append.simps)
  with st m'(1) ad show ?case
    by (intro exI [of _ "m' # stored"]) simp
qed

lemma adopted_refl [simp]: "adopted e e"
  by (simp add: adopted_def)

lemma list_all2_adopted_refl [simp]: "list_all2 adopted es es"
  by (simp add: list_all2_refl)

text \<open>
  C9. For an argument from which \<^verbatim>\<open>MatrixGroup(...)\<close> can be built and a group of \<open>n\<close>
  elements, let \<open>k\<close> be the index given, or the index plus \<open>n\<close> when the index given is
  negative. When \<open>k\<close> is negative or greater than \<open>n\<close>, \<^verbatim>\<open>insertElement\<close> raises \<^verbatim>\<open>IndexError\<close>
  naming \<open>k\<close> and the maximum \<open>n\<close>, and the group is unchanged. Otherwise it raises no
  \<^verbatim>\<open>IndexError\<close>, and a call that returns has put the new elements before position \<open>k\<close> of
  the old list (each element stored as given, or a \<^verbatim>\<open>Space\<close> with adopted indices); with
  the index \<open>n\<close> the new elements are appended at the end and the old ones are untouched.
  \<^verbatim>\<open>removeElement\<close> and \<^verbatim>\<open>replaceSingle\<close> raise \<^verbatim>\<open>IndexError\<close> at the index \<open>n\<close>.
\<close>

theorem insertElement_bounds:
  "raised (groupOf arg) = None \<longrightarrow>
   (let n = int (length (elements self));
        k = (if index0 < 0 then index0 + n else index0)
    in (if k < 0 \<or> k > n
        then raised (insertElement self index0 arg) = Some (IndexOutOfBound k n) \<and>
             after (insertElement self index0 arg) = self
        else (\<forall>e. raised (insertElement self index0 arg) = Some e \<longrightarrow> \<not> isIndexError e) \<and>
             (raised (insertElement self index0 arg) = None \<longrightarrow>
                list_all2 adopted
                  (take (nat k) (elements self) @ elements (after (groupOf arg)) @
                   drop (nat k) (elements self))
                  (elements (after (insertElement self index0 arg))))) \<and>
       (raised (insertElement self n arg) = None \<longrightarrow>
          (\<exists>stored. elements (after (insertElement self n arg)) = elements self @ stored \<and>
             list_all2 adopted (elements (after (groupOf arg))) stored)) \<and>
       raised (removeElement self n pad) = Some (IndexOutOfBound n (n - 1)) \<and>
       raised (replaceSingle self n arg) = Some (IndexOutOfBound n (n - 1)))"
proof (intro impI)
  assume made: "raised (groupOf arg) = None"
  let ?n = "int (length (elements self))"
  let ?k = "normIndex index0 ?n"
  let ?new = "after (groupOf arg)"
  have k: "(if index0 < 0 then index0 + ?n else index0) = ?k"
    by (simp add: normIndex_def)
  have atEnd: "\<exists>stored. elements (after (insertElement self i arg)) = elements self @ stored \<and>
      list_all2 adopted (elements ?new) stored"
    if ok: "raised (insertElement self i arg) = None" and i: "normIndex i ?n = ?n" for i
  proof -
    have eq: "insertElement self i arg =
        Outcome (raised (appendEach self ?new))
          (warned (groupOf arg) @ warned (appendEach self ?new))
          (after (appendEach self ?new))"
      using made i by (simp add: insertElement_def Let_def)
    with ok have "raised (appendAll self (map PElem (elements ?new))) = None"
      by (simp add: appendEach_def)
    from appendAll_adopted [OF this] eq show ?thesis
      by (simp add: appendEach_def)
  qed
  have range: "if ?k < 0 \<or> ?k > ?n
    then raised (insertElement self index0 arg) = Some (IndexOutOfBound ?k ?n) \<and>
         after (insertElement self index0 arg) = self
    else (\<forall>e. raised (insertElement self index0 arg) = Some e \<longrightarrow> \<not> isIndexError e) \<and>
         (raised (insertElement self index0 arg) = None \<longrightarrow>
            list_all2 adopted
              (take (nat ?k) (elements self) @ elements ?new @ drop (nat ?k) (elements self))
              (elements (after (insertElement self index0 arg))))"
  proof (cases "?k < 0 \<or> ?k > ?n")
    case True
    with made have "raised (insertElement self index0 arg) = Some (IndexOutOfBound ?k ?n) \<and>
         after (insertElement self index0 arg) = self"
      by (auto simp: insertElement_def Let_def)
    with True show ?thesis by (simp only: if_True)
  next
    case False
    have noIndexError: "\<not> isIndexError e" if "raised (insertElement self index0 arg) = Some e" for e
    proof
      assume "isIndexError e"
      have "benign (raised (appendEach self ?new))"
        "benign (raised (insertLoop ?k ?new 0 (elements self) (setElements self [])))"
        by (rule replayed_benign [OF replayed_appendEach])
          (rule replayed_benign [OF replayed_insertLoop])
      with made False have "benign (raised (insertElement self index0 arg))"
        by (auto simp add: insertElement_def Let_def)
      with that \<open>isIndexError e\<close> show False by simp
    qed
    have placed: "list_all2 adopted
        (take (nat ?k) (elements self) @ elements ?new @ drop (nat ?k) (elements self))
        (elements (after (insertElement self index0 arg)))"
      if ok: "raised (insertElement self index0 arg) = None"
    proof (cases "?k = ?n")
      case True
      from atEnd [OF ok True] obtain stored where
        s: "elements (after (insertElement self index0 arg)) = elements self @ stored"
        "list_all2 adopted (elements ?new) stored"
        by auto
      have "nat ?k = length (elements self)"
        using True by simp
      then have "take (nat ?k) (elements self) @ elements ?new @ drop (nat ?k) (elements self) =
          elements self @ elements ?new"
        by simp
      moreover have "list_all2 adopted (elements self @ elements ?new) (elements self @ stored)"
        using s(2) by (intro list_all2_appendI) simp_all
      ultimately show ?thesis
        using s(1) by simp
    next
      case neq: False
      with False have lt: "0 \<le> ?k" "?k < ?n"
        by linarith+
      let ?zs = "take (nat ?k) (elements self) @ elements ?new @ drop (nat ?k) (elements self)"
      have "insertLoop ?k ?new 0 (elements self) (setElements self []) =
          appendAll (setElements self []) (map PElem
            (take (nat (?k - 0)) (elements self) @ elements ?new @
             drop (nat (?k - 0)) (elements self)))"
        using lt by (intro insertLoop_appendAll) simp_all
      then have loop: "insertLoop ?k ?new 0 (elements self) (setElements self []) =
          appendAll (setElements self []) (map PElem ?zs)"
        by simp
      have eq: "insertElement self index0 arg =
          Outcome (raised (appendAll (setElements self []) (map PElem ?zs)))
            (warned (groupOf arg) @ warned (appendAll (setElements self []) (map PElem ?zs)))
            (after (appendAll (setElements self []) (map PElem ?zs)))"
        using made False neq loop by (simp add: insertElement_def Let_def)
      with ok have "raised (appendAll (setElements self []) (map PElem ?zs)) = None"
        by simp
      from appendAll_adopted [OF this] eq show ?thesis
        by simp
    qed
    from False noIndexError placed show ?thesis
      by (simp only: if_False) blast
  qed
  have nn: "normIndex ?n ?n = ?n"
    by (simp add: normIndex_def)
  have rem: "raised (removeElement self ?n pad) = Some (IndexOutOfBound ?n (?n - 1))"
    by (simp add: removeElement_def normIndex_def Let_def)
  have rep: "raised (replaceSingle self ?n arg) = Some (IndexOutOfBound ?n (?n - 1))"
    using made by (simp add: replaceSingle_def normIndex_def Let_def)
  from range atEnd [OF _ nn] rem rep
  show "let n = int (length (elements self));
        k = (if index0 < 0 then index0 + n else index0)
    in (if k < 0 \<or> k > n
        then raised (insertElement self index0 arg) = Some (IndexOutOfBound k n) \<and>
             after (insertElement self index0 arg) = self
        else (\<forall>e. raised (insertElement self index0 arg) = Some e \<longrightarrow> \<not> isIndexError e) \<and>
             (raised (insertElement self index0 arg) = None \<longrightarrow>
                list_all2 adopted
                  (take (nat k) (elements self) @ elements (after (groupOf arg)) @
                   drop (nat k) (elements self))
                  (elements (after (insertElement self index0 arg))))) \<and>
       (raised (insertElement self n arg) = None \<longrightarrow>
          (\<exists>stored. elements (after (insertElement self n arg)) = elements self @ stored \<and>
             list_all2 adopted (elements (after (groupOf arg))) stored)) \<and>
       raised (removeElement self n pad) = Some (IndexOutOfBound n (n - 1)) \<and>
       raised (replaceSingle self n arg) = Some (IndexOutOfBound n (n - 1))"
    unfolding Let_def k by blast
qed

lemma andThen_done [simp]: "andThen r (Outcome None []) = r"
  by (cases r) (auto simp: andThen_def Let_def split: option.splits)

lemma insert_at_end_pathG:
  "insertElement pathG 3 (PElem (Lens 5)) = append pathG (PElem (Lens 5))"
  by (simp add: insertElement_def groupOf_Lens normIndex_def pathG_elements appendEach_def
      emptyGroup_def Let_def del: append.simps)

lemma append_Lens_pathG:
  "raised (append pathG (PElem (Lens 5))) = None \<and>
   elements (after (append pathG (PElem (Lens 5)))) = [Space 10, Lens 10, Space 10, Lens 5]"
  by (simp add: pathG_elements) (simp add: Space_def Lens_def Matrix_def)

lemma insert_outside_pathG:
  "raised (insertElement pathG 4 (PElem (Lens 5))) = Some (IndexOutOfBound 4 3) \<and>
   raised (insertElement pathG (- 4) (PElem (Lens 5))) = Some (IndexOutOfBound (- 1) 3) \<and>
   raised (removeElement pathG 3 False) = Some (IndexOutOfBound 3 2) \<and>
   raised (replaceSingle pathG 3 (PElem (Lens 5))) = Some (IndexOutOfBound 3 2)"
  by (simp add: removeElement_def insertElement_def replaceSingle_def
      normIndex_def pathG_elements groupOf_Lens Let_def)

lemma insert_negative_pathG:
  "raised (insertElement pathG (- 1) (PElem (Lens 5))) = None \<and>
   elements (after (insertElement pathG (- 1) (PElem (Lens 5)))) =
     [Space 10, Lens 10, Lens 5, Space 10] \<and>
   raised (insertElement pathG (- 3) (PElem (Lens 5))) = None \<and>
   elements (after (insertElement pathG (- 3) (PElem (Lens 5)))) =
     [Lens 5, Space 10, Lens 10, Space 10]"
  by (simp add: insertElement_def groupOf_Lens normIndex_def pathG_elements appendEach_def
      emptyGroup_def Let_def)
     (simp add: Space_def Lens_def Matrix_def)

text \<open>
  On the group of three elements: the indices -1 and -3 are accepted and insert before
  the positions 2 and 0; index 3 appends; 4 and -4 are out of bounds.
\<close>

theorem insertElement_bounds_witness:
  "raised (groupOf (PElem (Lens 5))) = None \<and>
   raised (insertElement pathG (- 1) (PElem (Lens 5))) = None \<and>
   elements (after (insertElement pathG (- 1) (PElem (Lens 5)))) =
     [Space 10, Lens 10, Lens 5, Space 10] \<and>
   raised (insertElement pathG (- 3) (PElem (Lens 5))) = None \<and>
   elements (after (insertElement pathG (- 3) (PElem (Lens 5)))) =
     [Lens 5, Space 10, Lens 10, Space 10] \<and>
   raised (insertElement pathG 3 (PElem (Lens 5))) = None \<and>
   elements (after (insertElement pathG 3 (PElem (Lens 5)))) =
     [Space 10, Lens 10, Space 10, Lens 5] \<and>
   raised (insertElement pathG 4 (PElem (Lens 5))) = Some (IndexOutOfBound 4 3) \<and>
   raised (insertElement pathG (- 4) (PElem (Lens 5))) = Some (IndexOutOfBound (- 1) 3) \<and>
   raised (removeElement pathG 3 False) = Some (IndexOutOfBound 3 2) \<and>
   raised (replaceSingle pathG 3 (PElem (Lens 5))) = Some (IndexOutOfBound 3 2)"
  using insertElement_bounds [of "PElem (Lens 5)" pathG "- 1" False]
    insertElement_bounds [of "PElem (Lens 5)" pathG 4 False]
    insert_negative_pathG insert_at_end_pathG append_Lens_pathG insert_outside_pathG
  by (simp add: groupOf_Lens)

lemma setIteration_sel [simp]:
  "iteration (setIteration g n) = n"
  "elements (setIteration g n) = elements g"
  "traceCache (setIteration g n) = traceCache g"
  "agg (setIteration g n) = agg g"
  by (simp_all add: setIteration_def)

lemma drainFrom_step:
  "iteration g < length (elements g) \<Longrightarrow>
   drainFrom g =
     (case drainFrom (setIteration g (iteration g + 1)) of
        (bs, g2) \<Rightarrow> (elements g ! iteration g # bs, g2))"
  by (subst drainFrom.simps) (simp add: nextElement_def)

lemma drainFrom_stop:
  "\<not> iteration g < length (elements g) \<Longrightarrow> drainFrom g = ([], g)"
  by (subst drainFrom.simps) (simp add: nextElement_def)

lemma drainFrom_result:
  "iteration g \<le> length (elements g) \<Longrightarrow>
   drainFrom g = (drop (iteration g) (elements g), setIteration g (length (elements g)))"
proof (induction g rule: drainFrom.induct)
  case (1 g)
  show ?case
  proof (cases "iteration g < length (elements g)")
    case True
    then have n: "nextElement g =
        (Some (elements g ! iteration g), setIteration g (iteration g + 1))"
      by (simp add: nextElement_def)
    have "drainFrom (setIteration g (iteration g + 1)) =
        (drop (iteration (setIteration g (iteration g + 1)))
           (elements (setIteration g (iteration g + 1))),
         setIteration (setIteration g (iteration g + 1))
           (length (elements (setIteration g (iteration g + 1)))))"
      using "1.IH" n True by (simp add: setIteration_def)
    then show ?thesis
      using True by (simp add: drainFrom_step setIteration_def Cons_nth_drop_Suc)
  next
    case False
    with "1.prems" show ?thesis
      by (cases g) (simp add: drainFrom_stop setIteration_def)
  qed
qed

lemma nestedFor_result:
  assumes "elements self \<noteq> []"
  shows "nestedFor self =
    ([(hd (elements self), elements self)], setIteration self (length (elements self)))"
proof -
  let ?n = "length (elements self)"
  have n0: "nextElement (iter self) = (Some (hd (elements self)), setIteration self 1)"
    using assms by (cases self) (simp add: nextElement_def iter_def setIteration_def hd_conv_nth)
  have f: "forEach (setIteration self (Suc 0)) = (elements self, setIteration self ?n)"
    using drainFrom_result [of "iter (setIteration self (Suc 0))"]
    by (simp add: forEach_def iter_def setIteration_def)
  have stop: "outerLoop (setIteration self ?n) = ([], setIteration self ?n)"
    by (subst outerLoop.simps) (simp add: nextElement_def setIteration_def)
  show ?thesis
    unfolding nestedFor_def
    by (subst outerLoop.simps) (simp add: n0 f stop)
qed

text \<open>
  C10. \<^verbatim>\<open>iter(sequence)\<close> is the sequence itself with the counter set to 0. With at least
  one element: after the first iteration has taken the first element (counter 1), starting
  a second iteration sets the counter back to 0, and the next element either iteration
  gets is the first element again. In two nested \<^verbatim>\<open>for\<close> loops over the same group the
  inner loop runs through all elements and leaves the counter at the end, so the outer
  loop visits the first element only.
\<close>

theorem iterator_is_shared:
  "elements self \<noteq> [] \<longrightarrow>
   iter self = setIteration self 0 \<and>
   nextElement (iter self) = (Some (hd (elements self)), setIteration self 1) \<and>
   iteration (iter (snd (nextElement (iter self)))) = 0 \<and>
   fst (nextElement (iter (snd (nextElement (iter self))))) = Some (hd (elements self)) \<and>
   fst (nestedFor self) = [(hd (elements self), elements self)]"
proof
  assume ne: "elements self \<noteq> []"
  have n0: "nextElement (iter self) = (Some (hd (elements self)), setIteration self 1)"
    using ne by (cases self) (simp add: nextElement_def iter_def setIteration_def hd_conv_nth)
  have n1: "fst (nextElement (iter (setIteration self 1))) = Some (hd (elements self))"
    using ne by (cases self) (simp add: nextElement_def iter_def setIteration_def hd_conv_nth)
  show "iter self = setIteration self 0 \<and>
   nextElement (iter self) = (Some (hd (elements self)), setIteration self 1) \<and>
   iteration (iter (snd (nextElement (iter self)))) = 0 \<and>
   fst (nextElement (iter (snd (nextElement (iter self))))) = Some (hd (elements self)) \<and>
   fst (nestedFor self) = [(hd (elements self), elements self)]"
    using n0 n1 nestedFor_result [OF ne] by (simp add: iter_def setIteration_def)
qed

text \<open>On the group \<^verbatim>\<open>Space(10), Lens(10), Space(10)\<close>.\<close>

theorem iterator_is_shared_witness:
  "elements pathG \<noteq> [] \<and>
   fst (nextElement (iter pathG)) = Some (Space 10) \<and>
   iteration (snd (nextElement (iter pathG))) = 1 \<and>
   iteration (iter (snd (nextElement (iter pathG)))) = 0 \<and>
   fst (nextElement (iter (snd (nextElement (iter pathG))))) = Some (Space 10) \<and>
   fst (nestedFor pathG) = [(Space 10, [Space 10, Lens 10, Space 10])]"
  using iterator_is_shared [of pathG]
  by (auto simp: pathG_elements iter_def)

section \<open>Insertion and removal\<close>

lemma chained_snoc:
  "chained (xs @ [b]) \<Longrightarrow> xs \<noteq> [] \<Longrightarrow> backIndex (asMatrix (last xs)) = frontIndex (asMatrix b)"
  by (induction xs rule: chained.induct) auto

lemma chained_prefix: "chained (xs @ ys) \<Longrightarrow> chained xs"
  by (induction xs rule: chained.induct) auto

lemma recompute_setElements_recompute:
  "recompute (setElements (recompute g) es) = recompute (setElements g es)"
  by (simp add: recompute_def setElements_def transferMatrix_def Let_def)

lemma setElements_setElements [simp]: "setElements (setElements g xs) ys = setElements g ys"
  by (simp add: setElements_def)

lemma appendAll_chained:
  "chained (elements g @ ys) \<Longrightarrow>
   appendAll g (map PElem ys) =
     Outcome None [] (if ys = [] then g else recompute (setElements g (elements g @ ys)))"
proof (induction ys arbitrary: g)
  case Nil
  then show ?case by simp
next
  case (Cons e ys)
  have "chained (elements g @ [e])"
    using Cons.prems chained_prefix [of "elements g @ [e]" ys] by simp
  then have "elements g \<noteq> [] \<Longrightarrow> backIndex (asMatrix (last (elements g))) = frontIndex (asMatrix e)"
    by (rule chained_snoc)
  then have a: "append g (PElem e) = Outcome None [] (addElement g e)"
    by auto
  have "chained (elements (addElement g e) @ ys)"
    using Cons.prems by simp
  from Cons.IH [OF this] show ?case
    by (simp add: a addElement_def recompute_setElements_recompute del: append.simps)
qed

lemma aggregateCurrent_fixed:
  "aggregateCurrent g \<Longrightarrow> recompute (setElements g (elements g)) = g"
  by (cases g) (simp add: aggregateCurrent_def aggregateFields_def recompute_def
      setElements_def transferMatrix_def Let_def)

lemma groupOf_leaf:
  "groupOf (PElem (Leaf sp m p)) = Outcome None [] (addElement emptyGroup (Leaf sp m p))"
  by (simp add: groupOf_def emptyGroup_def)

lemma insertElement_leaf:
  assumes i: "0 \<le> i" "i \<le> int (length (elements self))"
    and ch: "chained (take (nat i) (elements self) @ Leaf sp m p # drop (nat i) (elements self))"
  shows "insertElement self i (PElem (Leaf sp m p)) =
    Outcome None []
      (recompute (setElements self
         (take (nat i) (elements self) @ Leaf sp m p # drop (nat i) (elements self))))"
proof (cases "i = int (length (elements self))")
  case True
  have "appendAll self (map PElem [Leaf sp m p]) =
      Outcome None [] (recompute (setElements self (elements self @ [Leaf sp m p])))"
    using ch True by (subst appendAll_chained) simp_all
  then show ?thesis
    using True i
    by (simp add: insertElement_def groupOf_leaf normIndex_def appendEach_def emptyGroup_def
        Let_def del: append.simps)
next
  case False
  with i have lt: "i < int (length (elements self))" by simp
  let ?ys = "take (nat i) (elements self) @ Leaf sp m p # drop (nat i) (elements self)"
  have "insertLoop i (addElement emptyGroup (Leaf sp m p)) 0 (elements self)
      (setElements self []) =
    appendAll (setElements self []) (map PElem
      (take (nat (i - 0)) (elements self) @ elements (addElement emptyGroup (Leaf sp m p)) @
       drop (nat (i - 0)) (elements self)))"
    using i lt by (intro insertLoop_appendAll) simp_all
  also have "\<dots> = appendAll (setElements self []) (map PElem ?ys)"
    by (simp add: emptyGroup_def)
  also have "\<dots> = Outcome None [] (recompute (setElements self ?ys))"
    using ch by (subst appendAll_chained) simp_all
  finally show ?thesis
    using i lt False
    by (simp add: insertElement_def groupOf_leaf normIndex_def Let_def)
qed

lemma removeElement_plain:
  assumes i: "0 \<le> i" "i < int (length (elements g))"
    and ch: "chained (take (nat i) (elements g) @ drop (Suc (nat i)) (elements g))"
  shows "removeElement g i False =
    Outcome None []
      (if take (nat i) (elements g) @ drop (Suc (nat i)) (elements g) = []
       then setElements g []
       else recompute (setElements g
              (take (nat i) (elements g) @ drop (Suc (nat i)) (elements g))))"
proof -
  have "removeLoop i False 0 (elements g) (setElements g []) =
      appendAll (setElements g []) (map PElem
        (take (nat (i - 0)) (elements g) @
         (if L (asMatrix (elements g ! nat (i - 0))) > 0 \<and> False
          then [Space (L (asMatrix (elements g ! nat (i - 0))))] else []) @
         drop (Suc (nat (i - 0))) (elements g)))"
    using i by (intro removeLoop_appendAll) simp_all
  also have "\<dots> = appendAll (setElements g [])
      (map PElem (take (nat i) (elements g) @ drop (Suc (nat i)) (elements g)))"
    by simp
  also have "\<dots> = Outcome None []
      (if take (nat i) (elements g) @ drop (Suc (nat i)) (elements g) = []
       then setElements g []
       else recompute (setElements (setElements g [])
              (elements (setElements g []) @
               take (nat i) (elements g) @ drop (Suc (nat i)) (elements g))))"
    using ch by (subst appendAll_chained) simp_all
  finally show ?thesis
    using i by (simp add: removeElement_def normIndex_def Let_def)
qed

text \<open>
  C7 (amended). For a group whose elements have matching indices, an index
  \<open>0 \<le> i \<le> n\<close> and a single leaf element that fits between its neighbours:
  \<^verbatim>\<open>insertElement(i, element)\<close> puts the element at position \<open>i\<close>, and
  \<^verbatim>\<open>removeElement(i)\<close> after it gives back the original list of elements; when the
  original group was not empty and its aggregate fields were those of its elements, the
  whole group is as before (aggregate, counter and cache included).
\<close>

theorem insert_remove_roundtrip:
  "0 \<le> i \<and> i \<le> int (length (elements self)) \<and> chained (elements self) \<and>
   chained (take (nat i) (elements self) @ Leaf sp m p # drop (nat i) (elements self)) \<longrightarrow>
   raised (insertElement self i (PElem (Leaf sp m p))) = None \<and>
   elements (after (insertElement self i (PElem (Leaf sp m p)))) =
     take (nat i) (elements self) @ Leaf sp m p # drop (nat i) (elements self) \<and>
   raised (removeElement (after (insertElement self i (PElem (Leaf sp m p)))) i False) = None \<and>
   elements (after (removeElement (after (insertElement self i (PElem (Leaf sp m p)))) i False)) =
     elements self \<and>
   (elements self \<noteq> [] \<and> aggregateCurrent self \<longrightarrow>
    after (removeElement (after (insertElement self i (PElem (Leaf sp m p)))) i False) = self)"
proof
  assume h: "0 \<le> i \<and> i \<le> int (length (elements self)) \<and> chained (elements self) \<and>
   chained (take (nat i) (elements self) @ Leaf sp m p # drop (nat i) (elements self))"
  let ?es = "elements self"
  let ?ys = "take (nat i) ?es @ Leaf sp m p # drop (nat i) ?es"
  let ?g1 = "recompute (setElements self ?ys)"
  have ins: "insertElement self i (PElem (Leaf sp m p)) = Outcome None [] ?g1"
    using h by (intro insertElement_leaf) simp_all
  from h have "0 \<le> i" "i \<le> int (length ?es)" by blast+
  then have k: "nat i \<le> length ?es" by linarith
  have el: "elements ?g1 = ?ys" by simp
  have restored: "take (nat i) ?ys @ drop (Suc (nat i)) ?ys = ?es"
    using k by (simp add: min_absorb2)
  have "0 \<le> i" "i < int (length (elements ?g1))"
      "chained (take (nat i) (elements ?g1) @ drop (Suc (nat i)) (elements ?g1))"
    using h k unfolding el restored by simp_all
  then have "removeElement ?g1 i False =
    Outcome None []
      (if take (nat i) (elements ?g1) @ drop (Suc (nat i)) (elements ?g1) = []
       then setElements ?g1 []
       else recompute (setElements ?g1
              (take (nat i) (elements ?g1) @ drop (Suc (nat i)) (elements ?g1))))"
    by (rule removeElement_plain)
  then have rem: "removeElement ?g1 i False =
    Outcome None [] (if ?es = [] then setElements ?g1 [] else recompute (setElements self ?es))"
    unfolding el restored by (simp only: recompute_setElements_recompute setElements_setElements)
  have "recompute (setElements self ?es) = self" if "aggregateCurrent self"
    using that by (rule aggregateCurrent_fixed)
  with ins rem show "raised (insertElement self i (PElem (Leaf sp m p))) = None \<and>
   elements (after (insertElement self i (PElem (Leaf sp m p)))) = ?ys \<and>
   raised (removeElement (after (insertElement self i (PElem (Leaf sp m p)))) i False) = None \<and>
   elements (after (removeElement (after (insertElement self i (PElem (Leaf sp m p)))) i False)) =
     ?es \<and>
   (?es \<noteq> [] \<and> aggregateCurrent self \<longrightarrow>
    after (removeElement (after (insertElement self i (PElem (Leaf sp m p)))) i False) = self)"
    by simp
qed

lemma pathG_chained: "chained (elements pathG)"
  by (simp add: pathG_elements Space_def Lens_def Matrix_def)

lemma pathG_current: "aggregateCurrent pathG"
proof -
  have "soundAggregate (after (appendAll emptyGroup (map PElem [Space 10, Lens 10, Space 10])))"
    using appendAll_invariant [of emptyGroup "[Space 10, Lens 10, Space 10]"]
    by (simp add: soundAggregate_def emptyGroup_def del: appendAll.simps)
  then have "soundAggregate pathG"
    by (simp add: pathG_def spacerLensSpacer_def del: appendAll.simps)
  then show ?thesis
    by (simp add: soundAggregate_def pathG_elements)
qed

text \<open>Inserting \<^verbatim>\<open>Lens(5)\<close> at 1 into \<^verbatim>\<open>Space(10), Lens(10), Space(10)\<close> and removing it.\<close>

theorem insert_remove_roundtrip_witness:
  "(0::int) \<le> 1 \<and> (1::int) \<le> int (length (elements pathG)) \<and> chained (elements pathG) \<and>
   chained [Space 10, Lens 5, Lens 10, Space 10] \<and> aggregateCurrent pathG \<and>
   raised (insertElement pathG 1 (PElem (Lens 5))) = None \<and>
   elements (after (insertElement pathG 1 (PElem (Lens 5)))) =
     [Space 10, Lens 5, Lens 10, Space 10] \<and>
   after (removeElement (after (insertElement pathG 1 (PElem (Lens 5)))) 1 False) = pathG"
  using insert_remove_roundtrip [of 1 pathG False
      "(Matrix 1 0 (- 1 / 5) 1)\<lparr>frontVertex := Some 0, backVertex := Some 0\<rparr>" "\<lambda>m upTo. m"]
    pathG_chained pathG_current
  by (simp add: pathG_elements Lens_def) (simp add: Space_def Matrix_def)

lemma twoSpaces_elements: "elements twoSpaces = [Space 2, Space 3]"
  by (simp add: twoSpaces_def emptyGroup_def Space_def Matrix_def)

lemma groupOf_twoSpaces:
  "groupOf (PElem (Sub twoSpaces)) =
     Outcome None [] (recompute (setElements emptyGroup [Space 2, Space 3]))"
proof -
  have "appendAll emptyGroup (map PElem [Space 2, Space 3]) =
      Outcome None [] (recompute (setElements emptyGroup (elements emptyGroup @ [Space 2, Space 3])))"
    by (subst appendAll_chained) (simp_all add: emptyGroup_def Space_def Matrix_def)
  then show ?thesis
    by (simp add: groupOf_def twoSpaces_elements emptyGroup_def del: appendAll.simps)
qed

lemma groupOf_twoSpaces_elements:
  "elements (after (groupOf (PElem (Sub twoSpaces)))) = [Space 2, Space 3]"
  by (simp add: groupOf_twoSpaces)

lemma insert_twoSpaces:
  "insertElement oneSpace 0 (PElem (Sub twoSpaces)) =
     Outcome None [] (recompute (setElements oneSpace [Space 2, Space 3, Space 10]))"
proof -
  have "insertLoop 0 (after (groupOf (PElem (Sub twoSpaces)))) 0 (elements oneSpace)
      (setElements oneSpace []) =
    appendAll (setElements oneSpace []) (map PElem
      (take (nat (0 - 0)) (elements oneSpace) @ elements (after (groupOf (PElem (Sub twoSpaces)))) @
       drop (nat (0 - 0)) (elements oneSpace)))"
    by (intro insertLoop_appendAll) (simp_all add: oneSpace_elements)
  also have "\<dots> = appendAll (setElements oneSpace []) (map PElem [Space 2, Space 3, Space 10])"
    by (simp add: groupOf_twoSpaces_elements oneSpace_elements del: appendAll.simps)
  also have "\<dots> = Outcome None []
      (recompute (setElements oneSpace [Space 2, Space 3, Space 10]))"
    by (subst appendAll_chained) (simp_all add: Space_def Matrix_def)
  finally have loop: "insertLoop 0 (recompute (setElements emptyGroup [Space 2, Space 3])) 0
      (elements oneSpace) (setElements oneSpace []) =
    Outcome None [] (recompute (setElements oneSpace [Space 2, Space 3, Space 10]))"
    by (simp only: groupOf_twoSpaces outcome.sel)
  show ?thesis
    unfolding insertElement_def groupOf_twoSpaces
    using loop
    by (simp add: normIndex_def oneSpace_elements Let_def del: insertLoop.simps)
qed

text \<open>
  A group is an element too, and \<^verbatim>\<open>insertElement\<close> inserts the elements of an iterable
  argument one by one: after inserting a group of two spaces at 0, \<^verbatim>\<open>removeElement(0)\<close>
  takes out the first of them only.
\<close>

theorem insert_group_counterexample:
  "raised (insertElement oneSpace 0 (PElem (Sub twoSpaces))) = None \<and>
   raised (removeElement (after (insertElement oneSpace 0 (PElem (Sub twoSpaces)))) 0 False) =
     None \<and>
   elements (after (removeElement (after (insertElement oneSpace 0 (PElem (Sub twoSpaces))))
     0 False)) = [Space 3, Space 10] \<and>
   elements (after (removeElement (after (insertElement oneSpace 0 (PElem (Sub twoSpaces))))
     0 False)) \<noteq> elements oneSpace"
proof -
  let ?g1 = "recompute (setElements oneSpace [Space 2, Space 3, Space 10])"
  have "removeElement ?g1 0 False =
    Outcome None []
      (if take (nat 0) (elements ?g1) @ drop (Suc (nat 0)) (elements ?g1) = []
       then setElements ?g1 []
       else recompute (setElements ?g1
              (take (nat 0) (elements ?g1) @ drop (Suc (nat 0)) (elements ?g1))))"
    by (intro removeElement_plain) (simp_all add: Space_def Matrix_def)
  then show ?thesis
    by (simp add: insert_twoSpaces oneSpace_elements)
qed

lemma L_composeAll: "L (composeAll acc es) = L acc + lengthOf es"
  by (induction es arbitrary: acc) (simp_all add: mul_matrix_def)

lemma totalLength_lengthOf: "totalLength g = lengthOf (elements g)"
  by (simp add: totalLength_def transferMatrix_def transferLoop_PlusInf L_composeAll Matrix_def)

lemma lengthOf_append: "lengthOf (xs @ ys) = lengthOf xs + lengthOf ys"
  by (induction xs) simp_all

lemma adopted_L: "adopted given stored \<Longrightarrow> L (asMatrix stored) = L (asMatrix given)"
proof -
  have "L (asMatrix (setIndices e n)) = L (asMatrix e)" for e n
    by (induction e n rule: setIndices.induct) simp_all
  then show "adopted given stored \<Longrightarrow> L (asMatrix stored) = L (asMatrix given)"
    unfolding adopted_def by metis
qed

lemma adopted_lengthOf: "list_all2 adopted zs stored \<Longrightarrow> lengthOf stored = lengthOf zs"
  by (induction rule: list_all2_induct) (simp_all add: adopted_L)

lemma L_Space: "L (asMatrix (Space d)) = d"
  by (simp add: Space_def)

lemma removeElement_replay:
  assumes ok: "raised (removeElement self i pad) = None"
  defines "k \<equiv> removedIndex self i"
  defines "zs \<equiv> take k (elements self) @
      (if removedLength self i > 0 \<and> pad then [Space (removedLength self i)] else []) @
      drop (Suc k) (elements self)"
  shows "k < length (elements self)"
    and "\<exists>stored. elements (after (removeElement self i pad)) = stored \<and>
           list_all2 adopted zs stored"
proof -
  let ?n = "int (length (elements self))"
  have inb: "\<not> (normIndex i ?n \<ge> ?n \<or> normIndex i ?n < 0)"
    using ok by (auto simp: removeElement_def Let_def)
  then show klt: "k < length (elements self)"
    unfolding k_def removedIndex_def by linarith
  have "removeElement self i pad =
      removeLoop (normIndex i ?n) pad 0 (elements self) (setElements self [])"
    using inb by (simp add: removeElement_def Let_def)
  also have "\<dots> = appendAll (setElements self []) (map PElem zs)"
    using inb
    by (subst removeLoop_appendAll)
       (simp_all add: zs_def k_def removedIndex_def removedLength_def del: appendAll.simps)
  finally have eq: "removeElement self i pad = appendAll (setElements self []) (map PElem zs)" .
  from ok appendAll_adopted [of "setElements self []" zs]
  show "\<exists>stored. elements (after (removeElement self i pad)) = stored \<and>
           list_all2 adopted zs stored"
    by (simp add: eq del: appendAll.simps)
qed

text \<open>
  C6 (amended). When \<^verbatim>\<open>removeElement(i, pad)\<close> returns and the removed element has a length
  \<open>d \<ge> 0\<close>: with \<^verbatim>\<open>pad=True\<close> the total length \<^verbatim>\<open>transferMatrix().L\<close> is the one before the
  call, with \<^verbatim>\<open>pad=False\<close> it is reduced by exactly \<open>d\<close>. With \<^verbatim>\<open>pad=True\<close> and \<open>d > 0\<close> the
  list keeps its size and holds at \<open>i\<close> a space of length \<open>d\<close> (\<^verbatim>\<open>Space(d)\<close> as constructed, or
  \<^verbatim>\<open>Space(d)\<close> with its front and back index set to one common value); otherwise the list
  is one element shorter.
\<close>

theorem removeElement_length:
  "raised (removeElement self i pad) = None \<and> 0 \<le> removedLength self i \<longrightarrow>
     totalLength (after (removeElement self i pad)) =
       (if pad then totalLength self else totalLength self - removedLength self i) \<and>
     (if pad \<and> 0 < removedLength self i
      then length (elements (after (removeElement self i pad))) = length (elements self) \<and>
           adopted (Space (removedLength self i))
             (elements (after (removeElement self i pad)) ! removedIndex self i)
      else length (elements (after (removeElement self i pad))) + 1 = length (elements self))"
proof (intro impI, elim conjE)
  assume ok: "raised (removeElement self i pad) = None" and d: "0 \<le> removedLength self i"
  let ?k = "removedIndex self i"
  let ?d = "removedLength self i"
  let ?es = "elements self"
  let ?zs = "take ?k ?es @ (if ?d > 0 \<and> pad then [Space ?d] else []) @ drop (Suc ?k) ?es"
  let ?stored = "elements (after (removeElement self i pad))"
  have klt: "?k < length ?es" and ad: "list_all2 adopted ?zs ?stored"
    using removeElement_replay [OF ok] by simp_all
  have whole: "lengthOf ?es = lengthOf (take ?k ?es) + ?d + lengthOf (drop (Suc ?k) ?es)"
    using klt id_take_nth_drop [of ?k ?es]
    by (metis lengthOf_append lengthOf_simps(2) removedLength_def add.assoc)
  have "lengthOf ?stored = lengthOf ?zs"
    using ad by (rule adopted_lengthOf)
  then have len: "totalLength (after (removeElement self i pad)) =
      (if pad then totalLength self else totalLength self - ?d)"
    using whole d by (auto simp: totalLength_lengthOf lengthOf_append L_Space)
  have size: "length ?stored = length ?zs"
    using ad by (rule list_all2_lengthD [symmetric])
  have shape: "if pad \<and> 0 < ?d
      then length ?stored = length ?es \<and> adopted (Space ?d) (?stored ! ?k)
      else length ?stored + 1 = length ?es"
  proof (cases "pad \<and> 0 < ?d")
    case True
    then have "?zs ! ?k = Space ?d"
      using klt by (simp add: nth_append)
    moreover have "?k < length ?zs"
      using True klt by simp
    ultimately have "adopted (Space ?d) (?stored ! ?k)"
      using ad list_all2_nthD [of adopted ?zs ?stored ?k] by simp
    moreover have "length ?zs = length ?es"
      using True klt by simp
    ultimately show ?thesis
      using True size by simp
  next
    case False
    then have "length ?zs + 1 = length ?es"
      using klt by auto
    then show ?thesis
      using False size by auto
  qed
  from len shape show "totalLength (after (removeElement self i pad)) =
       (if pad then totalLength self else totalLength self - removedLength self i) \<and>
     (if pad \<and> 0 < removedLength self i
      then length (elements (after (removeElement self i pad))) = length (elements self) \<and>
           adopted (Space (removedLength self i))
             (elements (after (removeElement self i pad)) ! removedIndex self i)
      else length (elements (after (removeElement self i pad))) + 1 = length (elements self))"
    by simp
qed

lemma thinGlass_elements:
  "elements thinGlass = [Space 5, glassInterface, airInterface, Space 3]"
  by (simp add: thinGlass_def emptyGroup_def Space_def glassInterface_def airInterface_def
      Matrix_def)

lemma remove_pad_pathG:
  "removeElement pathG 0 True =
     Outcome None [] (recompute (setElements pathG [Space 10, Lens 10, Space 10]))"
proof -
  have "removeLoop 0 True 0 (elements pathG) (setElements pathG []) =
    appendAll (setElements pathG []) (map PElem
      (take (nat (0 - 0)) (elements pathG) @
       (if L (asMatrix (elements pathG ! nat (0 - 0))) > 0 \<and> True
        then [Space (L (asMatrix (elements pathG ! nat (0 - 0))))] else []) @
       drop (Suc (nat (0 - 0))) (elements pathG)))"
    by (intro removeLoop_appendAll) (simp_all add: pathG_elements)
  also have "\<dots> = appendAll (setElements pathG []) (map PElem [Space 10, Lens 10, Space 10])"
    by (simp add: pathG_elements L_Space del: appendAll.simps)
  also have "\<dots> = Outcome None []
      (recompute (setElements pathG [Space 10, Lens 10, Space 10]))"
    by (subst appendAll_chained) (simp_all add: Space_def Lens_def Matrix_def)
  finally show ?thesis
    by (simp add: removeElement_def normIndex_def pathG_elements Let_def del: removeLoop.simps)
qed

lemma remove_plain_pathG:
  "removeElement pathG 0 False =
     Outcome None [] (recompute (setElements pathG [Lens 10, Space 10]))"
proof -
  have "removeElement pathG 0 False =
    Outcome None []
      (if take (nat 0) (elements pathG) @ drop (Suc (nat 0)) (elements pathG) = []
       then setElements pathG []
       else recompute (setElements pathG
              (take (nat 0) (elements pathG) @ drop (Suc (nat 0)) (elements pathG))))"
    by (intro removeElement_plain) (simp_all add: pathG_elements Space_def Lens_def Matrix_def)
  then show ?thesis
    by (simp add: pathG_elements)
qed

lemma removedLength_pathG: "removedLength pathG 0 = 10" "removedIndex pathG 0 = 0"
  by (simp_all add: removedLength_def removedIndex_def normIndex_def pathG_elements L_Space)

text \<open>Removing the first space of \<^verbatim>\<open>Space(10), Lens(10), Space(10)\<close>, padded and not.\<close>

theorem removeElement_length_witness:
  "raised (removeElement pathG 0 True) = None \<and>
   raised (removeElement pathG 0 False) = None \<and>
   (0::real) \<le> removedLength pathG 0 \<and> removedLength pathG 0 = 10 \<and>
   totalLength pathG = 20 \<and>
   totalLength (after (removeElement pathG 0 True)) = 20 \<and>
   totalLength (after (removeElement pathG 0 False)) = 10 \<and>
   elements (after (removeElement pathG 0 True)) = [Space 10, Lens 10, Space 10] \<and>
   elements (after (removeElement pathG 0 False)) = [Lens 10, Space 10]"
  using removeElement_length [of pathG 0 True] removeElement_length [of pathG 0 False]
  by (simp add: remove_pad_pathG remove_plain_pathG removedLength_pathG)
     (simp add: totalLength_lengthOf pathG_elements L_Space Lens_def Matrix_def)

text \<open>
  A replayed \<^verbatim>\<open>append\<close> can raise. In \<^verbatim>\<open>[Space(5), air to glass, glass to air, Space(3)]\<close> the
  two interfaces have length 0. \<^verbatim>\<open>removeElement(1)\<close> empties the list, appends \<^verbatim>\<open>Space(5)\<close>,
  skips the first interface and raises \<^verbatim>\<open>ValueError\<close> on the second one, whose front index
  1.5 is not the back index 1 of the space: the group is left with \<^verbatim>\<open>[Space(5)]\<close> and the
  total length 5, not 8 - 0.
\<close>

theorem removeElement_raises_counterexample:
  "removedIndex thinGlass 1 = 1 \<and> removedLength thinGlass 1 = 0 \<and>
   totalLength thinGlass = 8 \<and>
   raised (removeElement thinGlass 1 False) = Some ValueError \<and>
   elements (after (removeElement thinGlass 1 False)) = [Space 5] \<and>
   totalLength (after (removeElement thinGlass 1 False)) = 5 \<and>
   totalLength (after (removeElement thinGlass 1 False)) \<noteq>
     totalLength thinGlass - removedLength thinGlass 1"
proof -
  have r: "removeElement thinGlass 1 False =
      Outcome (Some ValueError) [] (recompute (setElements thinGlass [Space 5]))"
    by (simp add: removeElement_def normIndex_def thinGlass_elements Let_def andThen_def
        Space_def glassInterface_def airInterface_def Matrix_def addElement_def
        recompute_setElements_recompute)
  have l: "removedLength thinGlass 1 = 0" "removedIndex thinGlass 1 = 1"
    by (simp_all add: removedLength_def removedIndex_def normIndex_def thinGlass_elements
        glassInterface_def Matrix_def)
  have t: "totalLength thinGlass = 8"
    by (simp add: totalLength_lengthOf thinGlass_elements L_Space glassInterface_def
        airInterface_def Matrix_def)
  have t': "totalLength (recompute (setElements thinGlass [Space 5])) = 5"
    by (simp add: totalLength_lengthOf L_Space)
  show ?thesis
    by (simp add: r l t t')
qed

section \<open>An edit that raises during the replay\<close>

lemma insert_glass_pathG:
  "insertElement pathG 1 (PElem glassInterface) =
     Outcome (Some ValueError) [] (recompute (setElements pathG [Space 10, glassInterface]))"
  by (simp add: insertElement_def groupOf_def normIndex_def pathG_elements glassInterface_def
      emptyGroup_def Let_def addElement_def Space_def Lens_def Matrix_def andThen_def
      appendEach_def recompute_setElements_recompute)

text \<open>
  An edit that raises after the list was emptied. \<^verbatim>\<open>insertElement(1, glassInterface)\<close> on
  \<^verbatim>\<open>Space(10), Lens(10), Space(10)\<close> passes the bounds check, empties the list, appends
  \<^verbatim>\<open>Space(10)\<close> and the interface, and raises the \<^verbatim>\<open>ValueError\<close> of \<^verbatim>\<open>append\<close> on
  \<^verbatim>\<open>Lens(10)\<close>, whose front index 1 is not the back index 1.5 of the interface: the group is
  left with two elements and the total length 10 instead of 20.
\<close>

theorem edit_raises_counterexample:
  "raised (insertElement pathG 1 (PElem glassInterface)) = Some ValueError \<and>
   elements pathG = [Space 10, Lens 10, Space 10] \<and>
   elements (after (insertElement pathG 1 (PElem glassInterface))) =
     [Space 10, glassInterface] \<and>
   L (agg pathG) = 20 \<and>
   L (agg (after (insertElement pathG 1 (PElem glassInterface)))) = 10 \<and>
   after (insertElement pathG 1 (PElem glassInterface)) \<noteq> pathG"
proof -
  have a: "L (agg pathG) = 20"
    by (simp add: pathG_def spacerLensSpacer_def emptyGroup_def Space_def Lens_def Matrix_def
        addElement_def recompute_def setElements_def andThen_def Let_def transferMatrix_def
        mul_matrix_def)
  have b: "L (agg (recompute (setElements pathG [Space 10, glassInterface]))) = 10"
    by (simp add: recompute_def setElements_def Let_def transferMatrix_def Space_def
        glassInterface_def Matrix_def mul_matrix_def)
  have c: "recompute (setElements pathG [Space 10, glassInterface]) \<noteq> pathG"
    using a b by auto
  show ?thesis
    by (simp add: insert_glass_pathG pathG_elements a b c)
qed

section \<open>Tracing and the cache\<close>

lemma traceLoop_leaves:
  "list_all isLeaf es \<Longrightarrow>
   \<exists>added. traceLoop es ray fresh = (added, es, fresh + length es) \<and>
     length added = length es \<and>
     (\<forall>j<length es. added ! j = propagate (asMatrix (es ! j)) ((ray # added) ! j) (fresh + j))"
proof (induction es arbitrary: ray fresh)
  case Nil
  then show ?case by simp
next
  case (Cons e es)
  from Cons.prems obtain sp m p where e: "e = Leaf sp m p"
    by (cases e) simp_all
  let ?next = "propagate m ray fresh"
  from Cons.prems have "list_all isLeaf es" by simp
  from Cons.IH [OF this, of ?next "Suc fresh"]
  obtain added where a: "traceLoop es ?next (Suc fresh) = (added, es, Suc fresh + length es)"
    "length added = length es"
    "\<forall>j<length es. added ! j = propagate (asMatrix (es ! j)) ((?next # added) ! j) (Suc fresh + j)"
    by blast
  have "traceLoop (e # es) ray fresh = (?next # added, e # es, fresh + length (e # es))"
    by (simp add: e a(1))
  moreover have "length (?next # added) = length (e # es)"
    by (simp add: a(2))
  moreover have "\<forall>j<length (e # es). (?next # added) ! j =
      propagate (asMatrix ((e # es) ! j)) ((ray # ?next # added) ! j) (fresh + j)"
  proof (intro allI impI)
    fix j assume "j < length (e # es)"
    then show "(?next # added) ! j =
        propagate (asMatrix ((e # es) ! j)) ((ray # ?next # added) ! j) (fresh + j)"
      using a(3) by (cases j) (simp_all add: e)
  qed
  ultimately show ?case by blast
qed

lemma propagate_ray:
  "isRay l \<Longrightarrow> isRay (propagate m l fresh) \<and>
     lightBlocked (propagate m l fresh) =
       (lightBlocked l \<or> exceedsAperture m (lightHeight (propagate m l fresh)))"
  by (cases l) simp_all

lemma walk_blocked:
  assumes start: "isRay (t ! 0)"
    and step: "\<forall>j<n. t ! (j + 1) = propagate (asMatrix (es ! j)) (t ! j) (fresh + j)"
  shows "j \<le> n \<Longrightarrow> isRay (t ! j) \<and>
     lightBlocked (t ! j) =
       (lightBlocked (t ! 0) \<or>
        (\<exists>i<j. exceedsAperture (asMatrix (es ! i)) (lightHeight (t ! (i + 1)))))"
proof (induction j)
  case 0
  then show ?case using start by simp
next
  case (Suc j)
  then have ih: "isRay (t ! j)"
    "lightBlocked (t ! j) =
       (lightBlocked (t ! 0) \<or>
        (\<exists>i<j. exceedsAperture (asMatrix (es ! i)) (lightHeight (t ! (i + 1)))))"
    by simp_all
  from Suc.prems step have eq: "t ! Suc j = propagate (asMatrix (es ! j)) (t ! j) (fresh + j)"
    by simp
  from propagate_ray [OF ih(1), of "asMatrix (es ! j)" "fresh + j"]
  have p: "isRay (t ! Suc j)"
    "lightBlocked (t ! Suc j) =
       (lightBlocked (t ! j) \<or> exceedsAperture (asMatrix (es ! j)) (lightHeight (t ! Suc j)))"
    by (simp_all add: eq)
  have "(\<exists>i<Suc j. exceedsAperture (asMatrix (es ! i)) (lightHeight (t ! (i + 1)))) =
      ((\<exists>i<j. exceedsAperture (asMatrix (es ! i)) (lightHeight (t ! (i + 1)))) \<or>
       exceedsAperture (asMatrix (es ! j)) (lightHeight (t ! (j + 1))))"
    by (auto simp: less_Suc_eq)
  then show ?case
    using p ih(2) by auto
qed

text \<open>
  C2 (amended). For a group whose elements are all single matrices and a ray that is not
  blocked and is not the one traced last, \<^verbatim>\<open>trace\<close> returns a list of
  \<open>1 + number of elements\<close> entries: the input ray, then after each element the ray that
  the element makes of the entry before. An entry is blocked exactly when the height
  after one of the elements before it exceeded half of that element's aperture
  diameter: the entries up to the first such element are not blocked, all later ones are.
\<close>

theorem trace_of_leaves:
  "list_all isLeaf (elements self) \<and> differsFromLast (IsRay r) (traceCache self) \<and>
   \<not> isBlocked r \<longrightarrow>
   (\<exists>t. fst (trace self (PLight (IsRay r)) fresh) = Inr t \<and>
        length t = 1 + length (elements self) \<and> t ! 0 = IsRay r \<and>
        (\<forall>j<length (elements self).
           t ! (j + 1) = propagate (asMatrix (elements self ! j)) (t ! j) (fresh + j)) \<and>
        (\<forall>j\<le>length (elements self).
           lightBlocked (t ! j) =
             (\<exists>i<j. exceedsAperture (asMatrix (elements self ! i)) (lightHeight (t ! (i + 1))))))"
proof (intro impI, elim conjE)
  assume leaves: "list_all isLeaf (elements self)"
    and miss: "differsFromLast (IsRay r) (traceCache self)"
    and clear: "\<not> isBlocked r"
  obtain ag es it ca where self: "self = MatrixGroup ag es it ca"
    by (cases self)
  from traceLoop_leaves [OF leaves, of "IsRay r" fresh]
  obtain added where a: "traceLoop es (IsRay r) fresh = (added, es, fresh + length es)"
    "length added = length es"
    "\<forall>j<length es. added ! j = propagate (asMatrix (es ! j)) ((IsRay r # added) ! j) (fresh + j)"
    by (auto simp: self)
  let ?t = "IsRay r # added"
  have res: "fst (trace self (PLight (IsRay r)) fresh) = Inr ?t"
    using miss by (simp add: self a(1))
  have step: "\<forall>j<length es. ?t ! (j + 1) = propagate (asMatrix (es ! j)) (?t ! j) (fresh + j)"
    using a(3) by simp
  have blocked: "\<forall>j\<le>length es. lightBlocked (?t ! j) =
      (\<exists>i<j. exceedsAperture (asMatrix (es ! i)) (lightHeight (?t ! (i + 1))))"
  proof (intro allI impI)
    fix j assume "j \<le> length es"
    from walk_blocked [OF _ step this] clear
    show "lightBlocked (?t ! j) =
      (\<exists>i<j. exceedsAperture (asMatrix (es ! i)) (lightHeight (?t ! (i + 1))))"
      by simp
  qed
  have "length ?t = 1 + length es" "?t ! 0 = IsRay r"
    by (simp_all add: a(2))
  with res step blocked show "\<exists>t. fst (trace self (PLight (IsRay r)) fresh) = Inr t \<and>
        length t = 1 + length (elements self) \<and> t ! 0 = IsRay r \<and>
        (\<forall>j<length (elements self).
           t ! (j + 1) = propagate (asMatrix (elements self ! j)) (t ! j) (fresh + j)) \<and>
        (\<forall>j\<le>length (elements self).
           lightBlocked (t ! j) =
             (\<exists>i<j. exceedsAperture (asMatrix (elements self ! i)) (lightHeight (t ! (i + 1)))))"
    unfolding self group.sel by blast
qed

lemma clipped_shape:
  "\<exists>ag. clipped = MatrixGroup ag [Space 10, aperture 2, Space 10] 0 None"
  by (simp add: clipped_def emptyGroup_def Space_def aperture_def Matrix_def addElement_def
      recompute_def setElements_def andThen_def Let_def)

lemma twoSpaces_shape:
  "\<exists>ag. twoSpaces = MatrixGroup ag [Space 2, Space 3] 0 None \<and> frontIndex ag = 1"
  by (simp add: twoSpaces_def emptyGroup_def Space_def Matrix_def addElement_def
      recompute_def setElements_def andThen_def Let_def)

lemma nested_shape:
  "\<exists>ag. nested = MatrixGroup ag [Space 10, Sub twoSpaces] 0 None"
proof -
  from twoSpaces_shape obtain ag2 where
    t: "twoSpaces = MatrixGroup ag2 [Space 2, Space 3] 0 None" "frontIndex ag2 = 1"
    by blast
  show ?thesis
    by (simp add: nested_def t emptyGroup_def Space_def Matrix_def addElement_def
        recompute_def setElements_def andThen_def Let_def)
qed

text \<open>
  The ray \<^verbatim>\<open>Ray(y=0, theta=0.2)\<close> through \<^verbatim>\<open>Space(10), aperture(2), Space(10)\<close>: its height
  is 2 after the first space, the aperture of radius 1 blocks it, and the last space
  carries the blocked ray to the height 4.
\<close>

theorem trace_of_leaves_witness:
  "list_all isLeaf (elements clipped) \<and>
   differsFromLast (IsRay slanted) (traceCache clipped) \<and> \<not> isBlocked slanted \<and>
   map_sum id (map lightBlocked) (fst (trace clipped (PLight (IsRay slanted)) 1)) =
     Inr [False, False, True, True] \<and>
   map_sum id (map lightHeight) (fst (trace clipped (PLight (IsRay slanted)) 1)) =
     Inr [0, 2, 2, 4]"
proof -
  from clipped_shape obtain ag where
    c: "clipped = MatrixGroup ag [Space 10, aperture 2, Space 10] 0 None"
    by blast
  show ?thesis
    using trace_of_leaves [of clipped slanted 1]
    by (simp add: c slanted_def Space_def aperture_def Matrix_def exceedsAperture_def)
qed

text \<open>
  A group is an element too, and its \<^verbatim>\<open>trace\<close> returns its own list, which starts with
  the ray it was given. The group \<^verbatim>\<open>MatrixGroup([Space(10), MatrixGroup([Space(2), Space(3)])])\<close>
  has two elements, and the trace of \<^verbatim>\<open>Ray(y=0, theta=0.2)\<close> has five entries: the input
  ray, the ray after \<^verbatim>\<open>Space(10)\<close>, and the three entries of the inner trace.
\<close>

theorem trace_nested_counterexample:
  "length (elements nested) = 2 \<and>
   map_sum id length (fst (trace nested (PLight (IsRay slanted)) 1)) = Inr 5 \<and>
   map_sum id (map lightHeight) (fst (trace nested (PLight (IsRay slanted)) 1)) =
     Inr [0, 2, 2, 12 / 5, 3] \<and>
   map_sum id length (fst (trace nested (PLight (IsRay slanted)) 1)) \<noteq>
     Inr (1 + length (elements nested))"
proof -
  from twoSpaces_shape obtain ag2 where
    t: "twoSpaces = MatrixGroup ag2 [Space 2, Space 3] 0 None"
    by blast
  from nested_shape obtain ag where
    n: "nested = MatrixGroup ag [Space 10, Sub twoSpaces] 0 None"
    by blast
  show ?thesis
    unfolding n
    by (simp add: t slanted_def Space_def Matrix_def exceedsAperture_def)
qed

lemma replayed_keeps: "replayed (setElements g []) r \<Longrightarrow> keepsCache g (after r)"
  by (simp add: replayed_def keepsCache_def setElements_def)

lemma replayed_keeps_same: "replayed g r \<Longrightarrow> keepsCache g (after r)"
  by (simp add: replayed_def)

lemma keepsCache_removeElement: "keepsCache self (after (removeElement self i pad))"
  by (simp add: removeElement_def Let_def replayed_keeps)

lemma keepsCache_insertElement: "keepsCache self (after (insertElement self i v))"
  by (simp add: insertElement_def Let_def replayed_keeps replayed_keeps_same
      split: option.splits)

lemma keepsCache_replaceSingle: "keepsCache self (after (replaceSingle self i v))"
  by (simp add: replaceSingle_def Let_def replayed_keeps split: option.splits)

lemma keepsCache_replaceChunk: "keepsCache self (after (replaceChunk self i j v))"
  by (simp add: replaceChunk_def Let_def replayed_keeps warnIf_def split: option.splits)

lemma keepsCache_applyEdit: "keepsCache self (after (applyEdit e self))"
  by (cases e)
     (simp_all add: append_elem_facts(2) keepsCache_removeElement keepsCache_insertElement
        keepsCache_replaceSingle keepsCache_replaceChunk del: append.simps)

lemma trace_hit:
  "traceCache g = Some (c, t) \<Longrightarrow> oid ray = oid c \<Longrightarrow>
   trace g (PLight ray) fr = (Inr t, g, fr)"
  by (cases g) simp

lemma trace_miss:
  "differsFromLast other (traceCache g) \<Longrightarrow>
   fst (trace g (PLight other) fr) = Inr (other # fst (traceLoop (elements g) other fr)) \<and>
   traceCache (fst (snd (trace g (PLight other) fr))) =
     Some (other, other # fst (traceLoop (elements g) other fr))"
  by (cases g) (simp split: prod.splits)

lemma trace_fills_cache:
  "\<exists>c t. fst (trace g (PLight ray) fr) = Inr t \<and>
     traceCache (fst (snd (trace g (PLight ray) fr))) = Some (c, t) \<and> oid c = oid ray"
proof (cases "differsFromLast ray (traceCache g)")
  case True
  from trace_miss [OF this] show ?thesis by blast
next
  case False
  then obtain c t where c: "traceCache g = Some (c, t)" "oid ray = oid c"
    by (cases "traceCache g") auto
  from trace_hit [OF this, of fr] show ?thesis
    using c by (simp del: trace.simps)
qed

text \<open>
  C8. After \<^verbatim>\<open>trace(ray)\<close>, a second \<^verbatim>\<open>trace\<close> of the same ray object returns the list of
  the first call and changes nothing; so it does after any structural edit, whatever
  the edit did to the elements (the stale trace). A ray object of another identity,
  also one with the same height and angle, is traced through the current elements, and
  it becomes the cached one.
\<close>

theorem trace_cache:
  "(let first = trace self (PLight ray) fresh;
        self1 = fst (snd first);
        self2 = after (applyEdit e self1)
    in \<not> isl (fst first) \<and>
       trace self1 (PLight ray) fresh1 = (fst first, self1, fresh1) \<and>
       trace self2 (PLight ray) fresh1 = (fst first, self2, fresh1) \<and>
       (oid other \<noteq> oid ray \<longrightarrow>
          fst (trace self1 (PLight other) fresh1) =
            Inr (other # fst (traceLoop (elements self1) other fresh1)) \<and>
          traceCache (fst (snd (trace self1 (PLight other) fresh1))) =
            Some (other, other # fst (traceLoop (elements self1) other fresh1)) \<and>
          fst (trace self2 (PLight other) fresh1) =
            Inr (other # fst (traceLoop (elements self2) other fresh1)) \<and>
          traceCache (fst (snd (trace self2 (PLight other) fresh1))) =
            Some (other, other # fst (traceLoop (elements self2) other fresh1))))"
proof -
  let ?first = "trace self (PLight ray) fresh"
  let ?self1 = "fst (snd ?first)"
  let ?self2 = "after (applyEdit e ?self1)"
  from trace_fills_cache [of self ray fresh] obtain c t where
    f: "fst ?first = Inr t" "traceCache ?self1 = Some (c, t)" "oid c = oid ray"
    by blast
  have c2: "traceCache ?self2 = Some (c, t)"
    using keepsCache_applyEdit [of ?self1 e] f(2) by (simp add: keepsCache_def)
  have a: "\<not> isl (fst ?first)"
    by (simp add: f(1) del: trace.simps)
  have h1: "trace ?self1 (PLight ray) fresh1 = (fst ?first, ?self1, fresh1)"
    using trace_hit [OF f(2), of ray fresh1] f(3) by (simp add: f(1) del: trace.simps)
  have h2: "trace ?self2 (PLight ray) fresh1 = (fst ?first, ?self2, fresh1)"
    using trace_hit [OF c2, of ray fresh1] f(3) by (simp add: f(1) del: trace.simps)
  have m: "oid other \<noteq> oid ray \<Longrightarrow>
      fst (trace g (PLight other) fresh1) =
        Inr (other # fst (traceLoop (elements g) other fresh1)) \<and>
      traceCache (fst (snd (trace g (PLight other) fresh1))) =
        Some (other, other # fst (traceLoop (elements g) other fresh1))"
    if "traceCache g = Some (c, t)" for g
    using that f(3) by (intro trace_miss) (simp del: trace.simps)
  show ?thesis
    unfolding Let_def using a h1 h2 m [OF f(2)] m [OF c2] by blast
qed

lemma pathG_shape: "\<exists>ag. pathG = MatrixGroup ag [Space 10, Lens 10, Space 10] 0 None"
  by (simp add: pathG_def spacerLensSpacer_def emptyGroup_def Space_def Lens_def Matrix_def
      addElement_def recompute_def setElements_def andThen_def Let_def)

lemma tracedPath_shape:
  "\<exists>ag. tracedPath = MatrixGroup ag [Space 10, Lens 10, Space 10] 0
     (Some (IsRay slanted,
        [IsRay slanted,
         IsRay \<lparr>rid = 1, y = 2, theta = 1 / 5, z = 10, isBlocked = False\<rparr>,
         IsRay \<lparr>rid = 2, y = 2, theta = 0, z = 10, isBlocked = False\<rparr>,
         IsRay \<lparr>rid = 3, y = 2, theta = 0, z = 20, isBlocked = False\<rparr>]))"
proof -
  from pathG_shape obtain ag where p: "pathG = MatrixGroup ag [Space 10, Lens 10, Space 10] 0 None"
    by blast
  show ?thesis
    unfolding tracedPath_def p
    by (simp add: slanted_def Space_def Lens_def Matrix_def exceedsAperture_def)
qed

lemma longerPath_shape:
  "\<exists>ag. longerPath = MatrixGroup ag [Space 10, Lens 10, Space 10, Space 5] 0
     (Some (IsRay slanted,
        [IsRay slanted,
         IsRay \<lparr>rid = 1, y = 2, theta = 1 / 5, z = 10, isBlocked = False\<rparr>,
         IsRay \<lparr>rid = 2, y = 2, theta = 0, z = 10, isBlocked = False\<rparr>,
         IsRay \<lparr>rid = 3, y = 2, theta = 0, z = 20, isBlocked = False\<rparr>]))"
proof -
  from tracedPath_shape obtain ag where
    p: "tracedPath = MatrixGroup ag [Space 10, Lens 10, Space 10] 0
     (Some (IsRay slanted,
        [IsRay slanted,
         IsRay \<lparr>rid = 1, y = 2, theta = 1 / 5, z = 10, isBlocked = False\<rparr>,
         IsRay \<lparr>rid = 2, y = 2, theta = 0, z = 10, isBlocked = False\<rparr>,
         IsRay \<lparr>rid = 3, y = 2, theta = 0, z = 20, isBlocked = False\<rparr>]))"
    by blast
  show ?thesis
    unfolding longerPath_def p
    by (simp add: Space_def Lens_def Matrix_def addElement_def recompute_def setElements_def
        Let_def)
qed

text \<open>
  The second trace of the same ray through the longer group has the four entries of the
  first trace; the trace of the other ray object has five.
\<close>

theorem trace_cache_witness:
  "oid (IsRay twin) \<noteq> oid (IsRay slanted) \<and>
   y twin = y slanted \<and> theta twin = theta slanted \<and>
   length (elements tracedPath) = 3 \<and> length (elements longerPath) = 4 \<and>
   map_sum id (map lightHeight) (fst (trace pathG (PLight (IsRay slanted)) 1)) =
     Inr [0, 2, 2, 2] \<and>
   fst (trace tracedPath (PLight (IsRay slanted)) 4) =
     fst (trace pathG (PLight (IsRay slanted)) 1) \<and>
   fst (trace longerPath (PLight (IsRay slanted)) 4) =
     fst (trace pathG (PLight (IsRay slanted)) 1) \<and>
   map_sum id (map lightHeight) (fst (trace longerPath (PLight (IsRay twin)) 4)) =
     Inr [0, 2, 2, 2, 2] \<and>
   map_sum id (map oid) (fst (trace longerPath (PLight (IsRay twin)) 4)) =
     Inr [7, 4, 5, 6, 7]"
proof -
  from pathG_shape obtain ag0 where
    p0: "pathG = MatrixGroup ag0 [Space 10, Lens 10, Space 10] 0 None"
    by blast
  from longerPath_shape obtain ag where
    p: "longerPath = MatrixGroup ag [Space 10, Lens 10, Space 10, Space 5] 0
     (Some (IsRay slanted,
        [IsRay slanted,
         IsRay \<lparr>rid = 1, y = 2, theta = 1 / 5, z = 10, isBlocked = False\<rparr>,
         IsRay \<lparr>rid = 2, y = 2, theta = 0, z = 10, isBlocked = False\<rparr>,
         IsRay \<lparr>rid = 3, y = 2, theta = 0, z = 20, isBlocked = False\<rparr>]))"
    by blast
  have others: "oid (IsRay twin) \<noteq> oid (IsRay slanted)" "y twin = y slanted"
    "theta twin = theta slanted"
    by (simp_all add: twin_def slanted_def)
  have first: "map_sum id (map lightHeight) (fst (trace pathG (PLight (IsRay slanted)) 1)) =
     Inr [0, 2, 2, 2]"
    unfolding p0 by (simp add: slanted_def Space_def Lens_def Matrix_def exceedsAperture_def)
  have sizes: "length (elements tracedPath) = 3" "length (elements longerPath) = 4"
  proof -
    from tracedPath_shape obtain ag1 ca1 where
      p1: "tracedPath = MatrixGroup ag1 [Space 10, Lens 10, Space 10] 0 ca1"
      by blast
    show "length (elements tracedPath) = 3"
      by (simp add: p1)
    show "length (elements longerPath) = 4"
      by (simp add: p)
  qed
  have again: "map_sum id (map lightHeight) (fst (trace longerPath (PLight (IsRay twin)) 4)) =
     Inr [0, 2, 2, 2, 2]"
    "map_sum id (map oid) (fst (trace longerPath (PLight (IsRay twin)) 4)) =
     Inr [7, 4, 5, 6, 7]"
    unfolding p
    by (simp_all add: twin_def slanted_def Space_def Lens_def Matrix_def exceedsAperture_def)
  note cache = trace_cache [of pathG "IsRay slanted" 1 "Append (PElem (Space 5))" 4 "IsRay twin",
      unfolded Let_def, folded tracedPath_def, folded longerPath_def]
  from cache have "trace tracedPath (PLight (IsRay slanted)) 4 =
      (fst (trace pathG (PLight (IsRay slanted)) 1), tracedPath, 4)"
    and "trace longerPath (PLight (IsRay slanted)) 4 =
      (fst (trace pathG (PLight (IsRay slanted)) 1), longerPath, 4)"
    by blast+
  then have hits: "fst (trace tracedPath (PLight (IsRay slanted)) 4) =
      fst (trace pathG (PLight (IsRay slanted)) 1)"
    "fst (trace longerPath (PLight (IsRay slanted)) 4) =
      fst (trace pathG (PLight (IsRay slanted)) 1)"
    by (simp_all only: fst_conv)
  from others first sizes hits again show ?thesis
    by blast
qed

end
